theory Spec2Isabelle
  imports Complex_Main
begin

section \<open>Time and ISO-8601 dates\<close>

text \<open>
  The JavaScript source reads the wall clock with \<^verbatim>\<open>Date.now()\<close> (milliseconds since
  the epoch) and stores instants as the strings \<^verbatim>\<open>new Date().toISOString()\<close> produces.
  \<^verbatim>\<open>new Date(s).getTime()\<close> is the inverse of \<^verbatim>\<open>toISOString\<close>, so an instant is
  modelled by its millisecond count; the two places where the source looks at the text of
  the string (\<^verbatim>\<open>now.split('T')[0]\<close> and \<^verbatim>\<open>postedToDiscord.slice(0, 7)\<close>) are modelled
  by \<open>isoDate\<close>, the calendar date \<^verbatim>\<open>toISOString\<close> prints before the letter T.
\<close>

type_synonym timestamp = int

definition msPerDay :: int where
  "msPerDay = 24 * 60 * 60 * 1000"

definition digit_char :: "nat \<Rightarrow> char" where
  "digit_char n = ''0123456789'' ! (n mod 10)"

text \<open>The last \<open>k\<close> decimal digits of a non-negative \<open>n\<close>, zero padded.\<close>

fun padded :: "nat \<Rightarrow> int \<Rightarrow> string" where
  "padded 0 n = []"
| "padded (Suc k) n = padded k (n div 10) @ [digit_char (nat (n mod 10))]"

text \<open>\<^verbatim>\<open>String(n)\<close> for a non-negative integer, as a template literal prints it.\<close>

fun decimal :: "nat \<Rightarrow> string" where
  "decimal n = (if n < 10 then [digit_char n] else decimal (n div 10) @ [digit_char n])"

declare decimal.simps [simp del]

text \<open>
  The proleptic Gregorian date (year, month, day) of a day count relative to
  1970-01-01, which is what \<^verbatim>\<open>toISOString\<close> prints in UTC.
\<close>

definition civil_from_days :: "int \<Rightarrow> int \<times> int \<times> int" where
  "civil_from_days days =
     (let z = days + 719468;
          era = z div 146097;
          doe = z - era * 146097;
          yoe = (doe - doe div 1460 + doe div 36524 - doe div 146096) div 365;
          doy = doe - (365 * yoe + yoe div 4 - yoe div 100);
          mp = (5 * doy + 2) div 153;
          d = doy - (153 * mp + 2) div 5 + 1;
          m = (if mp < 10 then mp + 3 else mp - 9);
          y = yoe + era * 400 + (if m \<le> 2 then 1 else 0)
      in (y, m, d))"

text \<open>
  The text of \<^verbatim>\<open>toISOString()\<close> before the T: \<^verbatim>\<open>YYYY-MM-DD\<close> for the years 0 to 9999,
  and the expanded form with a sign and six digits outside them.
\<close>

definition isoYear :: "int \<Rightarrow> string" where
  "isoYear y =
     (if 0 \<le> y \<and> y \<le> 9999 then padded 4 y
      else (if y < 0 then ''-'' else ''+'') @ padded 6 \<bar>y\<bar>)"

definition isoDate :: "timestamp \<Rightarrow> string" where
  "isoDate t =
     (case civil_from_days (t div msPerDay) of
        (y, m, d) \<Rightarrow> isoYear y @ ''-'' @ padded 2 m @ ''-'' @ padded 2 d)"

text \<open>
  \<^verbatim>\<open>new Date(v)\<close> for a number \<open>v\<close>: a Date holds a time value of at most 8.64e15
  milliseconds on either side of the epoch, and is an Invalid Date (\<open>None\<close>, the time
  value \<^verbatim>\<open>NaN\<close>) outside that range. The number the source passes is
  \<^verbatim>\<open>Date.now() - this.activeWindowDays * 24 * 60 * 60 * 1000\<close>, computed in double
  precision: for an integral window and a clock within the range, every intermediate
  product is a multiple of a power of two with a short mantissa, so the result is exact
  whenever it is within the range and is outside the range whenever the exact result is.
\<close>

definition newDate :: "int \<Rightarrow> timestamp option" where
  "newDate v = (if \<bar>v\<bar> \<le> 8640000000000000 then Some v else None)"

text \<open>
  \<^verbatim>\<open>new Date(s) > cutoffDate\<close> for a stored instant: both sides become numbers, and a
  comparison with \<^verbatim>\<open>NaN\<close> is false.
\<close>

definition laterThan :: "timestamp \<Rightarrow> timestamp option \<Rightarrow> bool" where
  "laterThan t cutoffDate = (case cutoffDate of None \<Rightarrow> False | Some c \<Rightarrow> t > c)"

section \<open>Data model\<close>

text \<open>
  A date-valued string of the upstream job source, represented by what
  \<^verbatim>\<open>new Date(s).getTime()\<close> makes of it: an instant, or \<^verbatim>\<open>NaN\<close> for a string that
  is not a date.
\<close>

datatype date_value = ValidDate timestamp | InvalidDate

text \<open>
  One entry of \<^verbatim>\<open>data.jobs\<close>. The field \<^verbatim>\<open>id\<close> of the source is called \<open>instanceId\<close>
  here, after the local variable \<^verbatim>\<open>markAsPosted\<close> builds it in. A field that holds
  \<^verbatim>\<open>null\<close> is \<open>None\<close>. \<open>postedToDiscord\<close> is the instant of a string that
  \<^verbatim>\<open>toISOString\<close> printed, which is a valid date.
\<close>

record job =
  instanceId :: string
  jobId :: string
  company :: string
  title :: string
  postedToDiscord :: timestamp
  sourceDate :: "date_value option"
  sourceUrl :: "string option"
  discordThreadId :: "string option"
  instanceNumber :: nat

record last_archive =
  la_date :: timestamp
  la_archived :: nat
  la_monthsAffected :: "nat option"

text \<open>A metadata field that is \<^verbatim>\<open>undefined\<close> or absent is \<open>None\<close>.\<close>

record metadata =
  totalJobs :: nat
  activeWindowDaysMeta :: "int option"
  migratedFromV1 :: "bool option"
  migrationDate :: "timestamp option"
  lastArchive :: "last_archive option"

record database =
  version :: int
  lastUpdated :: timestamp
  jobs :: "job list"
  metadata :: metadata

text \<open>The fields of a constructed \<^verbatim>\<open>PostedJobsManagerV2\<close>.\<close>

record manager =
  data :: database
  activeWindowDays :: int
  reopeningWindowDays :: int

text \<open>
  The loosely typed job record of the upstream API. A property that is absent,
  \<^verbatim>\<open>null\<close> or \<^verbatim>\<open>undefined\<close> is \<open>None\<close>.
\<close>

record job_data =
  employer_name :: "string option"
  job_title :: "string option"
  job_posted_at_datetime_utc :: "date_value option"
  job_apply_link :: "string option"

text \<open>
  What \<^verbatim>\<open>JSON.parse\<close> makes of the text of \<^verbatim>\<open>posted_jobs.json\<close>: an array (the
  legacy list of job identifiers), \<^verbatim>\<open>null\<close>, a number, string or boolean, or an object.
  Of an object the model keeps the properties the source reads: \<^verbatim>\<open>version\<close> (\<open>None\<close>
  when absent or not a number), \<^verbatim>\<open>jobs\<close> (\<open>None\<close> when absent or \<^verbatim>\<open>null\<close>, so that
  \<^verbatim>\<open>rawData.jobs.length\<close> throws), \<^verbatim>\<open>lastUpdated\<close> and \<^verbatim>\<open>metadata\<close>.
\<close>

datatype raw_data =
    RawArray "string list"
  | RawNull
  | RawPrimitive
  | RawObject "int option" "job list option" timestamp metadata

datatype store_file = NoFile | CorruptJson | Json raw_data

text \<open>
  The content of one monthly archive file: text that \<^verbatim>\<open>JSON.parse\<close> rejects, a JSON
  value that is not an array, or an array of instances.
\<close>

datatype archive_file = CorruptArchive | NotAnArray | JobArray "job list"

text \<open>
  The archive directory: the file \<^verbatim>\<open>archive/<month>.json\<close> under its month
  \<^verbatim>\<open>YYYY-MM\<close>; \<open>None\<close> where \<^verbatim>\<open>fs.existsSync\<close> is false.
\<close>

type_synonym archive_dir = "string \<Rightarrow> archive_file option"

text \<open>
  The calls of the \<^verbatim>\<open>fs\<close> module that read or write a file, in the order the source
  makes them. Calls on directories (\<^verbatim>\<open>existsSync\<close> and \<^verbatim>\<open>mkdirSync\<close> of the data
  and archive directories) are not recorded.
\<close>

datatype fs_call =
    ExistsSync string
  | ReadFileSync string
  | OpenSync string
  | WriteSync string
  | FsyncSync string
  | CloseSync string
  | RenameSync string string

text \<open>
  How a call of a method ends: it returns, or \<^verbatim>\<open>process.exit\<close> ends the process
  with a code.
\<close>

datatype 'a outcome = ProcessExit nat | Returned 'a

record archive_stats =
  archived :: nat
  active :: nat
  months :: "nat option"

text \<open>
  \<^verbatim>\<open>process.env\<close>, each variable as \<^verbatim>\<open>parseInt\<close> reads it: \<open>None\<close> is \<^verbatim>\<open>NaN\<close> (the
  variable is unset or does not start with an integer).
\<close>

record env =
  ACTIVE_WINDOW_DAYS :: "int option"
  REOPENING_WINDOW_DAYS :: "int option"

section \<open>Paths\<close>

definition dataDir :: string where
  "dataDir = ''.github/data''"

definition postedJobsPath :: string where
  "postedJobsPath = dataDir @ ''/posted_jobs.json''"

definition archiveDir :: string where
  "archiveDir = dataDir @ ''/archive''"

definition archivePath :: "string \<Rightarrow> string" where
  "archivePath month = archiveDir @ ''/'' @ month @ ''.json''"

section \<open>Loading and migration\<close>

text \<open>
  \<^verbatim>\<open>createEmptyDatabase\<close>, \<^verbatim>\<open>migrateFromV1\<close> and \<^verbatim>\<open>loadPostedJobs\<close> read
  \<^verbatim>\<open>this.activeWindowDays\<close>; the argument \<open>thisActiveWindowDays\<close> is the value of that
  field when the method runs, \<open>None\<close> while the constructor has not assigned it.
  \<open>now\<close> is the instant of \<^verbatim>\<open>new Date()\<close> and \<open>dateNow\<close> that of \<^verbatim>\<open>Date.now()\<close>.
\<close>

definition createEmptyDatabase :: "int option \<Rightarrow> timestamp \<Rightarrow> database" where
  "createEmptyDatabase thisActiveWindowDays now =
     \<lparr>version = 2, lastUpdated = now, jobs = [],
      metadata = \<lparr>totalJobs = 0, activeWindowDaysMeta = thisActiveWindowDays,
                  migratedFromV1 = None, migrationDate = None, lastArchive = None\<rparr>\<rparr>"

definition migratedJob :: "timestamp \<Rightarrow> nat \<times> string \<Rightarrow> job" where
  "migratedJob eightDaysAgo p =
     (case p of (index, jid) \<Rightarrow>
       \<lparr>instanceId = jid @ ''-migrated-'' @ decimal index,
        jobId = jid,
        company = ''Unknown (migrated)'',
        title = ''Unknown (migrated)'',
        postedToDiscord = eightDaysAgo,
        sourceDate = None,
        sourceUrl = None,
        discordThreadId = None,
        instanceNumber = 1\<rparr>)"

definition migrateFromV1 :: "int option \<Rightarrow> timestamp \<Rightarrow> timestamp \<Rightarrow> string list \<Rightarrow> database" where
  "migrateFromV1 thisActiveWindowDays now dateNow jobIdsArray =
     (let eightDaysAgo = dateNow - 8 * 24 * 60 * 60 * 1000;
          js = map (migratedJob eightDaysAgo) (enumerate 0 jobIdsArray)
      in \<lparr>version = 2, lastUpdated = now, jobs = js,
          metadata = \<lparr>totalJobs = length js, activeWindowDaysMeta = thisActiveWindowDays,
                      migratedFromV1 = Some True, migrationDate = Some now,
                      lastArchive = None\<rparr>\<rparr>)"

text \<open>
  Every exception inside the \<^verbatim>\<open>try\<close> block (the JSON does not parse, \<^verbatim>\<open>rawData\<close> is
  \<^verbatim>\<open>null\<close>, \<^verbatim>\<open>rawData.jobs\<close> is undefined) ends in the \<^verbatim>\<open>catch\<close> branch, which returns
  an empty database.
\<close>

definition loadPostedJobs :: "int option \<Rightarrow> timestamp \<Rightarrow> timestamp \<Rightarrow> store_file \<Rightarrow> database" where
  "loadPostedJobs thisActiveWindowDays now dateNow file =
     (case file of
        NoFile \<Rightarrow> createEmptyDatabase thisActiveWindowDays now
      | CorruptJson \<Rightarrow> createEmptyDatabase thisActiveWindowDays now
      | Json (RawArray jobIdsArray) \<Rightarrow>
          migrateFromV1 thisActiveWindowDays now dateNow jobIdsArray
      | Json RawNull \<Rightarrow> createEmptyDatabase thisActiveWindowDays now
      | Json RawPrimitive \<Rightarrow> createEmptyDatabase thisActiveWindowDays now
      | Json (RawObject v js lu md) \<Rightarrow>
          (if v = Some 2 then
             (case js of
                None \<Rightarrow> createEmptyDatabase thisActiveWindowDays now
              | Some l \<Rightarrow> \<lparr>version = 2, lastUpdated = lu, jobs = l, metadata = md\<rparr>)
           else createEmptyDatabase thisActiveWindowDays now))"

text \<open>\<^verbatim>\<open>parseInt(v) || d\<close>: \<^verbatim>\<open>NaN\<close> and 0 are falsy.\<close>

definition orDefault :: "int option \<Rightarrow> int \<Rightarrow> int" where
  "orDefault v d = (case v of None \<Rightarrow> d | Some n \<Rightarrow> if n = 0 then d else n)"

text \<open>
  The constructor loads the store first and assigns the two window fields afterwards,
  so \<^verbatim>\<open>this.activeWindowDays\<close> is still undefined while \<^verbatim>\<open>loadPostedJobs\<close> runs.
\<close>

definition constructor :: "env \<Rightarrow> timestamp \<Rightarrow> timestamp \<Rightarrow> store_file \<Rightarrow> manager" where
  "constructor e now dateNow file =
     (let d = loadPostedJobs None now dateNow file
      in \<lparr>data = d,
          activeWindowDays = orDefault (ACTIVE_WINDOW_DAYS e) 7,
          reopeningWindowDays = orDefault (REOPENING_WINDOW_DAYS e) 30\<rparr>)"

section \<open>The dedup decision\<close>

text \<open>\<^verbatim>\<open>jobData && jobData.job_posted_at_datetime_utc\<close>.\<close>

definition sourceDateOf :: "job_data option \<Rightarrow> date_value option" where
  "sourceDateOf jobData = (case jobData of None \<Rightarrow> None | Some d \<Rightarrow> job_posted_at_datetime_utc d)"

text \<open>
  \<^verbatim>\<open>hasBeenPosted(jobId, jobData)\<close> at the instant \<open>now\<close>: the readings of
  \<^verbatim>\<open>Date.now()\<close> within one call of a method are taken to be the same instant, here
  and in \<^verbatim>\<open>archiveOldJobs\<close>. The two quotients
  \<^verbatim>\<open>daysSinceSourcePost\<close> and \<^verbatim>\<open>monthsSinceOldest\<close> are exact rationals here; the source
  computes them in double precision. A comparison with \<^verbatim>\<open>NaN\<close> is false, so an
  unparsable source date takes the \<^verbatim>\<open>else\<close> branch. \<^verbatim>\<open>sort\<close> is stable, as
  \<open>sort_key\<close> is; the sorted list is not empty where \<^verbatim>\<open>[0]\<close> is taken, so the
  branch for the empty list is never reached.
\<close>

definition hasBeenPosted :: "manager \<Rightarrow> timestamp \<Rightarrow> string \<Rightarrow> job_data option \<Rightarrow> bool" where
  "hasBeenPosted m now jid jobData =
     (let instances = filter (\<lambda>j. jobId j = jid) (jobs (data m)) in
      if length instances = 0 then False
      else
        let cutoffDate = newDate (now - activeWindowDays m * 24 * 60 * 60 * 1000);
            hasActiveInstance = list_ex (\<lambda>inst. laterThan (postedToDiscord inst) cutoffDate) instances
        in
          if hasActiveInstance then True
          else
            (case sourceDateOf jobData of
               Some InvalidDate \<Rightarrow> True
             | Some (ValidDate sd) \<Rightarrow>
                 (let daysSinceSourcePost = (of_int (now - sd) :: rat) / (1000 * 60 * 60 * 24)
                  in if daysSinceSourcePost \<le> of_int (reopeningWindowDays m) then False else True)
             | None \<Rightarrow>
                 (case sort_key postedToDiscord instances of
                    [] \<Rightarrow> True
                  | oldestInstance # _ \<Rightarrow>
                      (let monthsSinceOldest =
                             (of_int (now - postedToDiscord oldestInstance) :: rat)
                               / (1000 * 60 * 60 * 24 * 30)
                       in if monthsSinceOldest \<ge> 3 then False else True))))"

section \<open>Archiving\<close>

text \<open>
  \<^verbatim>\<open>jobsByMonth\<close> is an object whose keys are month strings; \<^verbatim>\<open>Object.entries\<close> lists
  them in the order they were first inserted, which the association list keeps. The key
  of a job is \<^verbatim>\<open>job.postedToDiscord.slice(0, 7)\<close>, the first seven characters of the stored
  string; the string is the one \<^verbatim>\<open>toISOString\<close> printed for the instant, so the key is
  taken here from the date text of the instant.
\<close>

definition monthOf :: "job \<Rightarrow> string" where
  "monthOf j = take 7 (isoDate (postedToDiscord j))"

fun addToMonth :: "string \<Rightarrow> job \<Rightarrow> (string \<times> job list) list \<Rightarrow> (string \<times> job list) list" where
  "addToMonth month j [] = [(month, [j])]"
| "addToMonth month j ((k, js) # rest) =
     (if k = month then (k, js @ [j]) # rest else (k, js) # addToMonth month j rest)"

text \<open>The loop \<^verbatim>\<open>jobsToArchive.forEach\<close> that fills \<^verbatim>\<open>jobsByMonth\<close>.\<close>

fun groupInto :: "(string \<times> job list) list \<Rightarrow> job list \<Rightarrow> (string \<times> job list) list" where
  "groupInto jobsByMonth [] = jobsByMonth"
| "groupInto jobsByMonth (j # js) = groupInto (addToMonth (monthOf j) j jobsByMonth) js"

definition groupByMonth :: "job list \<Rightarrow> (string \<times> job list) list" where
  "groupByMonth jobsToArchive = groupInto [] jobsToArchive"

text \<open>
  The write of a file through a temporary sibling: open, write, flush, close, rename.
  The calls on the file descriptor are recorded under the path it was opened on.
\<close>

definition atomicWriteCalls :: "string \<Rightarrow> fs_call list" where
  "atomicWriteCalls path =
     (let tempPath = path @ ''.tmp''
      in [OpenSync tempPath, WriteSync tempPath, FsyncSync tempPath, CloseSync tempPath,
          RenameSync tempPath path])"

text \<open>
  The existing content of a bucket: empty when the file is missing, does not parse or
  is not an array.
\<close>

definition loadArchive :: "archive_file option \<Rightarrow> job list" where
  "loadArchive f =
     (case f of
        None \<Rightarrow> []
      | Some CorruptArchive \<Rightarrow> []
      | Some NotAnArray \<Rightarrow> []
      | Some (JobArray existingArchive) \<Rightarrow> existingArchive)"

definition loadArchiveCalls :: "string \<Rightarrow> archive_file option \<Rightarrow> fs_call list" where
  "loadArchiveCalls path f =
     (case f of None \<Rightarrow> [ExistsSync path] | Some _ \<Rightarrow> [ExistsSync path, ReadFileSync path])"

text \<open>
  The merge of a month's jobs into its bucket: the jobs whose \<^verbatim>\<open>id\<close> the bucket does
  not hold yet, and the bucket with them, sorted by posting time.
\<close>

definition newJobs :: "job list \<Rightarrow> job list \<Rightarrow> job list" where
  "newJobs existingArchive js =
     (let existingIds = set (map instanceId existingArchive)
      in filter (\<lambda>j. instanceId j \<notin> existingIds) js)"

definition mergedArchive :: "job list \<Rightarrow> job list \<Rightarrow> job list" where
  "mergedArchive existingArchive js =
     sort_key postedToDiscord (existingArchive @ newJobs existingArchive js)"

text \<open>
  The body of the loop over \<^verbatim>\<open>Object.entries(jobsByMonth)\<close>: the state is the archive
  directory, \<^verbatim>\<open>totalArchived\<close> and the file calls made so far.
\<close>

definition archiveMonth ::
  "archive_dir \<times> nat \<times> fs_call list \<Rightarrow> string \<times> job list \<Rightarrow> archive_dir \<times> nat \<times> fs_call list" where
  "archiveMonth acc entry =
     (case acc of (dir, totalArchived, calls) \<Rightarrow>
      case entry of (month, js) \<Rightarrow>
        (let path = archivePath month;
             existingArchive = loadArchive (dir month)
         in (dir(month \<mapsto> JobArray (mergedArchive existingArchive js)),
             totalArchived + length (newJobs existingArchive js),
             calls @ loadArchiveCalls path (dir month) @ atomicWriteCalls path)))"

definition archiveOldJobs ::
  "manager \<Rightarrow> timestamp \<Rightarrow> archive_dir \<Rightarrow> manager \<times> archive_dir \<times> archive_stats \<times> fs_call list" where
  "archiveOldJobs m now dir =
     (let cutoffDate = newDate (now - activeWindowDays m * 24 * 60 * 60 * 1000);
          activeJobs = filter (\<lambda>j. laterThan (postedToDiscord j) cutoffDate) (jobs (data m));
          jobsToArchive = filter (\<lambda>j. \<not> laterThan (postedToDiscord j) cutoffDate) (jobs (data m))
      in
        if length jobsToArchive = 0 then
          (m, dir, \<lparr>archived = 0, active = length activeJobs, months = None\<rparr>, [])
        else
          (let jobsByMonth = groupByMonth jobsToArchive
           in case foldl archiveMonth (dir, 0, []) jobsByMonth of
                (dir', totalArchived, calls) \<Rightarrow>
                  (m\<lparr>data := (data m)\<lparr>jobs := activeJobs,
                                       metadata := (metadata (data m))\<lparr>totalJobs := length activeJobs\<rparr>\<rparr>\<rparr>,
                   dir',
                   \<lparr>archived = totalArchived, active = length activeJobs,
                    months = Some (length jobsByMonth)\<rparr>,
                   calls)))"

section \<open>Saving\<close>

text \<open>
  \<^verbatim>\<open>verifyData.jobs.length\<close> for what the verification step reads back; \<open>None\<close> when
  reading, parsing or the property access throws.
\<close>

definition verifyJobsLength :: "store_file \<Rightarrow> nat option" where
  "verifyJobsLength verifyData =
     (case verifyData of
        Json (RawObject v (Some l) lu md) \<Rightarrow> Some (length l)
      | _ \<Rightarrow> None)"

text \<open>The document a reliable disk returns for a written database.\<close>

definition writtenDocument :: "database \<Rightarrow> store_file" where
  "writtenDocument d = Json (RawObject (Some (version d)) (Some (jobs d)) (lastUpdated d) (metadata d))"

text \<open>
  \<^verbatim>\<open>savePostedJobs\<close>: \<open>now\<close> is its own \<^verbatim>\<open>new Date()\<close>, \<open>archiveNow\<close> the
  \<^verbatim>\<open>Date.now()\<close> of the \<^verbatim>\<open>archiveOldJobs\<close> it calls, and \<open>readBack\<close> is the storage:
  what \<^verbatim>\<open>fs.readFileSync(postedJobsPath)\<close> holds after the database \<open>d\<close> was written and
  renamed into place. The result is how the call ends, the archive directory it leaves
  and the file calls it made. Any exception in the \<^verbatim>\<open>try\<close> block ends in
  \<^verbatim>\<open>process.exit(1)\<close>.
\<close>

definition savePostedJobs ::
  "manager \<Rightarrow> timestamp \<Rightarrow> timestamp \<Rightarrow> archive_dir \<Rightarrow> (database \<Rightarrow> store_file)
     \<Rightarrow> manager outcome \<times> archive_dir \<times> fs_call list" where
  "savePostedJobs m now archiveNow dir readBack =
     (case archiveOldJobs m archiveNow dir of
        (m1, dir1, archiveStats, archiveCalls) \<Rightarrow>
          (let d = (data m1)\<lparr>lastUpdated := now,
                            metadata := (metadata (data m1))\<lparr>lastArchive :=
                               Some \<lparr>la_date = now, la_archived = archived archiveStats,
                                     la_monthsAffected = months archiveStats\<rparr>\<rparr>\<rparr>;
               calls = archiveCalls @ atomicWriteCalls postedJobsPath @ [ReadFileSync postedJobsPath]
           in case verifyJobsLength (readBack d) of
                None \<Rightarrow> (ProcessExit 1, dir1, calls)
              | Some n \<Rightarrow>
                  if n \<noteq> length (jobs d) then (ProcessExit 1, dir1, calls)
                  else (Returned (m1\<lparr>data := d\<rparr>), dir1, calls)))"

section \<open>Appending\<close>

text \<open>\<^verbatim>\<open>v || d\<close> on an optional string: absent and empty strings are falsy.\<close>

definition orElse :: "string option \<Rightarrow> string \<Rightarrow> string" where
  "orElse v d = (case v of None \<Rightarrow> d | Some s \<Rightarrow> if s = [] then d else s)"

definition orNull :: "string option \<Rightarrow> string option" where
  "orNull v = (case v of None \<Rightarrow> None | Some s \<Rightarrow> if s = [] then None else Some s)"

text \<open>The object \<^verbatim>\<open>newJob\<close> that \<^verbatim>\<open>markAsPosted\<close> builds and pushes.\<close>

definition newJob :: "manager \<Rightarrow> timestamp \<Rightarrow> string \<Rightarrow> job_data \<Rightarrow> string option \<Rightarrow> job" where
  "newJob m now jid jobData threadId =
     (let existingInstances = filter (\<lambda>j. jobId j = jid) (jobs (data m));
          n = length existingInstances + 1
      in \<lparr>instanceId = jid @ ''-'' @ isoDate now @ ''-'' @ decimal n,
          jobId = jid,
          company = orElse (employer_name jobData) ''Unknown'',
          title = orElse (job_title jobData) ''Unknown'',
          postedToDiscord = now,
          sourceDate = job_posted_at_datetime_utc jobData,
          sourceUrl = orNull (job_apply_link jobData),
          discordThreadId = threadId,
          instanceNumber = n\<rparr>)"

definition markAsPosted ::
  "manager \<Rightarrow> timestamp \<Rightarrow> timestamp \<Rightarrow> timestamp \<Rightarrow> archive_dir \<Rightarrow> (database \<Rightarrow> store_file)
     \<Rightarrow> string \<Rightarrow> job_data \<Rightarrow> string option \<Rightarrow> manager outcome \<times> archive_dir \<times> fs_call list" where
  "markAsPosted m now saveNow archiveNow dir readBack jid jobData threadId =
     (let js = jobs (data m) @ [newJob m now jid jobData threadId];
          d = (data m)\<lparr>jobs := js, lastUpdated := now,
                       metadata := (metadata (data m))\<lparr>totalJobs := length js\<rparr>\<rparr>
      in savePostedJobs (m\<lparr>data := d\<rparr>) saveNow archiveNow dir readBack)"

section \<open>Sequences of operations\<close>

text \<open>
  A call of \<^verbatim>\<open>markAsPosted\<close> with its three clock readings (its own, that of
  \<^verbatim>\<open>savePostedJobs\<close> and that of \<^verbatim>\<open>archiveOldJobs\<close>) and its arguments, or a call of
  \<^verbatim>\<open>archiveOldJobs\<close>. The state between calls is the manager and the archive directory.
\<close>

datatype op =
    MarkAsPosted timestamp timestamp timestamp string job_data "string option"
  | ArchiveOldJobs timestamp

fun step :: "(database \<Rightarrow> store_file) \<Rightarrow> manager \<times> archive_dir \<Rightarrow> op \<Rightarrow> (manager \<times> archive_dir) option" where
  "step readBack (m, dir) (MarkAsPosted now saveNow archiveNow jid jobData threadId) =
     (case markAsPosted m now saveNow archiveNow dir readBack jid jobData threadId of
        (Returned m', dir', calls) \<Rightarrow> Some (m', dir')
      | (ProcessExit code, dir', calls) \<Rightarrow> None)"
| "step readBack (m, dir) (ArchiveOldJobs now) =
     (case archiveOldJobs m now dir of (m', dir', stats, calls) \<Rightarrow> Some (m', dir'))"

text \<open>A run ends with \<open>None\<close> when a call ended the process.\<close>

fun run :: "(database \<Rightarrow> store_file) \<Rightarrow> manager \<times> archive_dir \<Rightarrow> op list \<Rightarrow> (manager \<times> archive_dir) option" where
  "run readBack s [] = Some s"
| "run readBack s (x # xs) =
     (case step readBack s x of None \<Rightarrow> None | Some s' \<Rightarrow> run readBack s' xs)"

text \<open>The instances the calls of \<^verbatim>\<open>markAsPosted\<close> in a run create, in call order.\<close>

fun created :: "manager \<times> archive_dir \<Rightarrow> op \<Rightarrow> job list" where
  "created (m, dir) (MarkAsPosted now saveNow archiveNow jid jobData threadId) =
     [newJob m now jid jobData threadId]"
| "created (m, dir) (ArchiveOldJobs now) = []"

fun appended :: "(database \<Rightarrow> store_file) \<Rightarrow> manager \<times> archive_dir \<Rightarrow> op list \<Rightarrow> job list" where
  "appended readBack s [] = []"
| "appended readBack s (x # xs) =
     created s x @ (case step readBack s x of None \<Rightarrow> [] | Some s' \<Rightarrow> appended readBack s' xs)"

text \<open>The instants at which a call computes an archive cutoff.\<close>

fun archiveInstant :: "op \<Rightarrow> timestamp" where
  "archiveInstant (MarkAsPosted now saveNow archiveNow jid jobData threadId) = archiveNow"
| "archiveInstant (ArchiveOldJobs now) = now"

text \<open>The instances held by the archive buckets, and by the whole system.\<close>

definition archivedJobs :: "archive_dir \<Rightarrow> job set" where
  "archivedJobs dir = (\<Union>month. set (loadArchive (dir month)))"

definition allJobs :: "manager \<times> archive_dir \<Rightarrow> job set" where
  "allJobs s = set (jobs (data (fst s))) \<union> archivedJobs (snd s)"

section \<open>Auxiliary notions\<close>

text \<open>
  Names for parts of the operations above, used to state their properties: the database
  \<^verbatim>\<open>savePostedJobs\<close> writes, the manager after the \<^verbatim>\<open>push\<close> of \<^verbatim>\<open>markAsPosted\<close>, the test
  \<^verbatim>\<open>new Date(job.postedToDiscord) > cutoffDate\<close> of a call at the instant \<open>now\<close>, the jobs
  \<^verbatim>\<open>archiveOldJobs\<close> moves, and per bucket the content, the calls and the number of
  inserted jobs of one pass of the archive loop over a grouping.
\<close>

definition savedDatabase :: "manager \<Rightarrow> timestamp \<Rightarrow> archive_stats \<Rightarrow> database" where
  "savedDatabase m1 now archiveStats =
     (data m1)\<lparr>lastUpdated := now,
                metadata := (metadata (data m1))\<lparr>lastArchive :=
                   Some \<lparr>la_date = now, la_archived = archived archiveStats,
                         la_monthsAffected = months archiveStats\<rparr>\<rparr>\<rparr>"

definition pushed :: "manager \<Rightarrow> timestamp \<Rightarrow> string \<Rightarrow> job_data \<Rightarrow> string option \<Rightarrow> manager" where
  "pushed m now jid jobData threadId =
     m\<lparr>data := (data m)\<lparr>jobs := jobs (data m) @ [newJob m now jid jobData threadId],
                          lastUpdated := now,
                          metadata := (metadata (data m))\<lparr>totalJobs := length (jobs (data m)) + 1\<rparr>\<rparr>\<rparr>"

definition isActive :: "manager \<Rightarrow> timestamp \<Rightarrow> job \<Rightarrow> bool" where
  "isActive m now j =
     laterThan (postedToDiscord j) (newDate (now - activeWindowDays m * 24 * 60 * 60 * 1000))"

definition agedJobs :: "manager \<Rightarrow> timestamp \<Rightarrow> job list" where
  "agedJobs m now = filter (\<lambda>j. \<not> isActive m now j) (jobs (data m))"

text \<open>The cutoff an instant and a window give is a valid date.\<close>

definition validCutoff :: "manager \<Rightarrow> timestamp \<Rightarrow> bool" where
  "validCutoff m now \<longleftrightarrow> \<bar>now - activeWindowDays m * msPerDay\<bar> \<le> 8640000000000000"

definition bucketAfter :: "archive_dir \<Rightarrow> (string \<times> job list) list \<Rightarrow> archive_dir" where
  "bucketAfter dir gs k =
     (case map_of gs k of
        None \<Rightarrow> dir k
      | Some js \<Rightarrow> Some (JobArray (mergedArchive (loadArchive (dir k)) js)))"

definition bucketCalls :: "archive_dir \<Rightarrow> string \<times> job list \<Rightarrow> fs_call list" where
  "bucketCalls dir g =
     loadArchiveCalls (archivePath (fst g)) (dir (fst g)) @ atomicWriteCalls (archivePath (fst g))"

definition bucketInserted :: "archive_dir \<Rightarrow> string \<times> job list \<Rightarrow> nat" where
  "bucketInserted dir g = length (newJobs (loadArchive (dir (fst g))) (snd g))"

text \<open>
  Every instance id occurs once in the whole system: once in the active store or once in
  one bucket.
\<close>

definition uniqueIds :: "manager \<times> archive_dir \<Rightarrow> bool" where
  "uniqueIds s \<longleftrightarrow>
     distinct (map instanceId (jobs (data (fst s))))
     \<and> (\<forall>k. distinct (map instanceId (loadArchive (snd s k))))
     \<and> (\<forall>k k'. k \<noteq> k' \<longrightarrow>
           instanceId ` set (loadArchive (snd s k)) \<inter> instanceId ` set (loadArchive (snd s k')) = {})
     \<and> instanceId ` set (jobs (data (fst s))) \<inter> instanceId ` archivedJobs (snd s) = {}"


section \<open>Example values\<close>

definition exampleJob :: job where
  "exampleJob =
     \<lparr>instanceId = ''A-2023-11-14-1'', jobId = ''A'', company = ''Acme'', title = ''Engineer'',
      postedToDiscord = 1700000000000, sourceDate = None, sourceUrl = None,
      discordThreadId = None, instanceNumber = 1\<rparr>"

definition exampleManager :: manager where
  "exampleManager =
     \<lparr>data = \<lparr>version = 2, lastUpdated = 1700000000000, jobs = [exampleJob],
              metadata = \<lparr>totalJobs = 1, activeWindowDaysMeta = None, migratedFromV1 = None,
                          migrationDate = None, lastArchive = None\<rparr>\<rparr>,
      activeWindowDays = 7, reopeningWindowDays = 30\<rparr>"

definition exampleJobData :: "date_value option \<Rightarrow> job_data" where
  "exampleJobData sd =
     \<lparr>employer_name = Some ''Acme'', job_title = Some ''Engineer'',
      job_posted_at_datetime_utc = sd, job_apply_link = None\<rparr>"

text \<open>
  A manager constructed with no store file and the default windows, three appends of the
  same job ten days apart, the same appends with an archive run before the second and the
  third, six appends of which the second and the fourth are of the same job on the same
  day with the first instance of that job archived in between, a manager constructed with
  an active window of 200,000,000 days, and a manager constructed from a legacy file with
  a 14-day active window.
\<close>

definition defaultEnv :: env where
  "defaultEnv = \<lparr>ACTIVE_WINDOW_DAYS = None, REOPENING_WINDOW_DAYS = None\<rparr>"

definition freshManager :: manager where
  "freshManager = constructor defaultEnv 1700000000000 1700000000000 NoFile"

definition threeAppends :: "op list" where
  "threeAppends =
     [MarkAsPosted 1700000000000 1700000000000 1700000000000 ''A'' (exampleJobData None) None,
      MarkAsPosted 1700864000000 1700864000000 1700864000000 ''A'' (exampleJobData None) None,
      MarkAsPosted 1701728000000 1701728000000 1701728000000 ''A'' (exampleJobData None) None]"

definition appendsAndArchives :: "op list" where
  "appendsAndArchives =
     [MarkAsPosted 1700000000000 1700000000000 1700000000000 ''A'' (exampleJobData None) None,
      ArchiveOldJobs 1700691200000,
      MarkAsPosted 1700864000000 1700864000000 1700864000000 ''A'' (exampleJobData None) None,
      ArchiveOldJobs 1701555200000,
      MarkAsPosted 1701728000000 1701728000000 1701728000000 ''A'' (exampleJobData None) None]"

definition duplicateIdRun :: "op list" where
  "duplicateIdRun =
     [MarkAsPosted 1700000000000 1700000000000 1700000000000 ''A'' (exampleJobData None) None,
      MarkAsPosted 1700604799000 1700604799000 1700604799000 ''A'' (exampleJobData None) None,
      MarkAsPosted 1700604800000 1700604800000 1700604800000 ''B'' (exampleJobData None) None,
      MarkAsPosted 1700604801000 1700604801000 1700604801000 ''A'' (exampleJobData None) None,
      MarkAsPosted 1701209600000 1701209600000 1701209600000 ''C'' (exampleJobData None) None,
      MarkAsPosted 1701209602000 1701209602000 1701209602000 ''D'' (exampleJobData None) None]"

definition wideManager :: manager where
  "wideManager =
     constructor \<lparr>ACTIVE_WINDOW_DAYS = Some 200000000, REOPENING_WINDOW_DAYS = None\<rparr>
       1700000000000 1700000000000 NoFile"

definition legacyManager :: manager where
  "legacyManager =
     constructor \<lparr>ACTIVE_WINDOW_DAYS = Some 14, REOPENING_WINDOW_DAYS = None\<rparr>
       1700000000000 1700000000000 (Json (RawArray [''job-1'', ''job-2'']))"


section \<open>Facts about the example values\<close>

lemma freshManager_simps:
  "jobs (data freshManager) = []" "activeWindowDays freshManager = 7"
  by (simp_all add: freshManager_def constructor_def loadPostedJobs_def createEmptyDatabase_def
      orDefault_def defaultEnv_def)

lemma archivedJobs_empty: "archivedJobs Map.empty = {}"
  by (simp add: archivedJobs_def loadArchive_def)

section \<open>The test against the cutoff\<close>

lemma cutoff_ms: "w * 24 * 60 * 60 * 1000 = w * msPerDay"
  by (simp add: msPerDay_def)

lemma isActive_iff:
  "isActive m now j \<longleftrightarrow>
     validCutoff m now \<and> postedToDiscord j > now - activeWindowDays m * msPerDay"
  unfolding isActive_def validCutoff_def cutoff_ms
  by (simp add: newDate_def laterThan_def)

lemma isActive_window:
  "activeWindowDays m' = activeWindowDays m \<Longrightarrow> isActive m' now j = isActive m now j"
  by (simp add: isActive_def)

section \<open>Properties of the dedup decision\<close>

lemma sort_key_head_Min:
  assumes "sort_key f xs = y # ys"
  shows "f y = Min (f ` set xs)"
proof -
  have s: "sorted (map f (y # ys))"
    using sorted_sort_key [of f xs] assms by simp
  have e: "set xs = set (y # ys)"
    using set_sort [of f xs] assms by simp
  show ?thesis
  proof (rule sym, rule Min_eqI)
    show "finite (f ` set xs)" by simp
    show "f y \<in> f ` set xs" using e by simp
    fix z assume "z \<in> f ` set xs"
    then show "f y \<le> z" using s e by auto
  qed
qed

lemma hasBeenPosted_aged:
  assumes ne: "filter (\<lambda>j. jobId j = jid) (jobs (data m)) \<noteq> []"
      and aged: "\<not> list_ex (isActive m now) (filter (\<lambda>j. jobId j = jid) (jobs (data m)))"
  shows "hasBeenPosted m now jid jobData =
     (case sourceDateOf jobData of
               Some InvalidDate \<Rightarrow> True
             | Some (ValidDate sd) \<Rightarrow>
                 \<not> ((of_int (now - sd) :: rat) / (1000 * 60 * 60 * 24) \<le> of_int (reopeningWindowDays m))
             | None \<Rightarrow>
                 (case sort_key postedToDiscord (filter (\<lambda>j. jobId j = jid) (jobs (data m))) of
                    [] \<Rightarrow> True
                  | oldestInstance # _ \<Rightarrow>
                      \<not> ((of_int (now - postedToDiscord oldestInstance) :: rat)
                               / (1000 * 60 * 60 * 24 * 30) \<ge> 3)))"
  using ne aged unfolding hasBeenPosted_def isActive_def [abs_def] Let_def
  by (auto split: option.splits date_value.splits list.splits)

lemma aged_instances:
  assumes "\<exists>j\<in>set (jobs (data m)). jobId j = jid"
      and "\<forall>j\<in>set (jobs (data m)). jobId j = jid \<longrightarrow> postedToDiscord j \<le> now - activeWindowDays m * msPerDay"
  shows "filter (\<lambda>j. jobId j = jid) (jobs (data m)) \<noteq> []"
    and "\<not> list_ex (isActive m now) (filter (\<lambda>j. jobId j = jid) (jobs (data m)))"
  using assms by (auto simp: filter_empty_conv list_ex_iff isActive_iff)

text \<open>
  Claim C4. When the job has instances in the active store, all of them at least
  \<open>activeWindowDays\<close> old, and the query carries a source date that parses, the query
  returns true exactly when the source date is more than \<open>reopeningWindowDays\<close> days
  old; a source date exactly \<open>reopeningWindowDays\<close> days old gives false, one day more
  gives true.
\<close>

theorem hasBeenPosted_source_date_window:
  assumes "\<exists>j\<in>set (jobs (data m)). jobId j = jid"
      and "\<forall>j\<in>set (jobs (data m)). jobId j = jid \<longrightarrow>
             postedToDiscord j \<le> now - activeWindowDays m * msPerDay"
      and "sourceDateOf jobData = Some (ValidDate sd)"
  shows "(hasBeenPosted m now jid jobData \<longleftrightarrow>
            (of_int (now - sd) :: rat) / of_int msPerDay > of_int (reopeningWindowDays m))
       \<and> (sd = now - reopeningWindowDays m * msPerDay \<longrightarrow> \<not> hasBeenPosted m now jid jobData)
       \<and> (sd = now - (reopeningWindowDays m + 1) * msPerDay \<longrightarrow> hasBeenPosted m now jid jobData)"
proof -
  have r: "hasBeenPosted m now jid jobData \<longleftrightarrow>
            (of_int (now - sd) :: rat) / of_int msPerDay > of_int (reopeningWindowDays m)"
    using hasBeenPosted_aged [OF aged_instances [OF assms(1,2)], of jobData] assms(3)
    by (simp add: msPerDay_def not_le)
  have d: "(of_int (now - sd) :: rat) / of_int msPerDay > of_int (reopeningWindowDays m)
             \<longleftrightarrow> now - sd > reopeningWindowDays m * msPerDay"
  proof -
    have "(0::rat) < of_int msPerDay" by (simp add: msPerDay_def)
    then have "(of_int (reopeningWindowDays m) < (of_int (now - sd) :: rat) / of_int msPerDay)
         \<longleftrightarrow> (of_int (reopeningWindowDays m) * of_int msPerDay < (of_int (now - sd) :: rat))"
      by (simp add: pos_less_divide_eq)
    also have "\<dots> \<longleftrightarrow> reopeningWindowDays m * msPerDay < now - sd"
      by (metis of_int_less_iff of_int_mult)
    finally show ?thesis .
  qed
  have p: "(0::int) < msPerDay" by (simp add: msPerDay_def)
  have a: "sd = now - reopeningWindowDays m * msPerDay \<Longrightarrow>
             \<not> now - sd > reopeningWindowDays m * msPerDay"
    by simp
  have b: "sd = now - (reopeningWindowDays m + 1) * msPerDay \<Longrightarrow>
             now - sd > reopeningWindowDays m * msPerDay"
    using p by (simp add: distrib_right)
  show ?thesis using r d a b by blast
qed

theorem hasBeenPosted_source_date_window_witness:
  "(\<exists>j\<in>set (jobs (data exampleManager)). jobId j = ''A'')
   \<and> sourceDateOf (Some (exampleJobData (Some (ValidDate 1698272000000)))) = Some (ValidDate 1698272000000)
   \<and> \<not> hasBeenPosted exampleManager 1700864000000 ''A'' (Some (exampleJobData (Some (ValidDate 1698272000000))))"
proof -
  have h1: "\<exists>j\<in>set (jobs (data exampleManager)). jobId j = ''A''"
    by (simp add: exampleManager_def exampleJob_def)
  have h2: "\<forall>j\<in>set (jobs (data exampleManager)). jobId j = ''A'' \<longrightarrow>
         postedToDiscord j \<le> 1700864000000 - activeWindowDays exampleManager * msPerDay"
    by (simp add: exampleManager_def exampleJob_def msPerDay_def)
  have h3: "sourceDateOf (Some (exampleJobData (Some (ValidDate 1698272000000)))) = Some (ValidDate 1698272000000)"
    by (simp add: sourceDateOf_def exampleJobData_def)
  have e: "1698272000000 = 1700864000000 - reopeningWindowDays exampleManager * msPerDay"
    by (simp add: exampleManager_def msPerDay_def)
  show ?thesis
    using hasBeenPosted_source_date_window [OF h1 h2 h3] h1 h2 h3 e by blast
qed

text \<open>
  Claim C5. When the job has instances in the active store, all of them at least
  \<open>activeWindowDays\<close> old, and the query carries no source date, the query returns
  false exactly when the earliest matching instance was posted at least three months
  (of 30 days) ago, and true otherwise.
\<close>

theorem hasBeenPosted_no_source_date:
  assumes "\<exists>j\<in>set (jobs (data m)). jobId j = jid"
      and "\<forall>j\<in>set (jobs (data m)). jobId j = jid \<longrightarrow>
             postedToDiscord j \<le> now - activeWindowDays m * msPerDay"
      and "sourceDateOf jobData = None"
  shows "hasBeenPosted m now jid jobData \<longleftrightarrow>
           \<not> (of_int (now - Min (postedToDiscord ` {j \<in> set (jobs (data m)). jobId j = jid})) :: rat)
                / of_int (msPerDay * 30) \<ge> 3"
proof -
  let ?inst = "filter (\<lambda>j. jobId j = jid) (jobs (data m))"
  have ne: "?inst \<noteq> []" using aged_instances(1) [OF assms(1,2)] .
  then have "sort_key postedToDiscord ?inst \<noteq> []"
    by (metis length_sort length_0_conv)
  then obtain y ys where s: "sort_key postedToDiscord ?inst = y # ys"
    by (cases "sort_key postedToDiscord ?inst") auto
  have mn: "postedToDiscord y = Min (postedToDiscord ` {j \<in> set (jobs (data m)). jobId j = jid})"
  proof -
    have "{j \<in> set (jobs (data m)). jobId j = jid} = set ?inst" by auto
    then show ?thesis using sort_key_head_Min [OF s] by simp
  qed
  show ?thesis
    using hasBeenPosted_aged [OF aged_instances [OF assms(1,2)], of jobData] assms(3) s mn
    by (simp add: msPerDay_def)
qed

theorem hasBeenPosted_no_source_date_witness:
  "(\<exists>j\<in>set (jobs (data exampleManager)). jobId j = ''A'')
   \<and> sourceDateOf None = None
   \<and> hasBeenPosted exampleManager 1700864000000 ''A'' None
   \<and> \<not> hasBeenPosted exampleManager 1707776000000 ''A'' None"
proof -
  have h1: "\<exists>j\<in>set (jobs (data exampleManager)). jobId j = ''A''"
    by (simp add: exampleManager_def exampleJob_def)
  have h2: "\<forall>j\<in>set (jobs (data exampleManager)). jobId j = ''A'' \<longrightarrow>
         postedToDiscord j \<le> 1700864000000 - activeWindowDays exampleManager * msPerDay"
    by (simp add: exampleManager_def exampleJob_def msPerDay_def)
  have h2': "\<forall>j\<in>set (jobs (data exampleManager)). jobId j = ''A'' \<longrightarrow>
         postedToDiscord j \<le> 1707776000000 - activeWindowDays exampleManager * msPerDay"
    by (simp add: exampleManager_def exampleJob_def msPerDay_def)
  have h3: "sourceDateOf None = None"
    by (simp add: sourceDateOf_def)
  have s: "{j \<in> set (jobs (data exampleManager)). jobId j = ''A''} = {exampleJob}"
    by (auto simp: exampleManager_def exampleJob_def)
  have a: "hasBeenPosted exampleManager 1700864000000 ''A'' None"
    using hasBeenPosted_no_source_date [OF h1 h2 h3]
    by (simp add: s msPerDay_def) (simp add: exampleJob_def)
  have b: "\<not> hasBeenPosted exampleManager 1707776000000 ''A'' None"
    using hasBeenPosted_no_source_date [OF h1 h2' h3]
    by (simp add: s msPerDay_def) (simp add: exampleJob_def)
  show ?thesis using h1 h2 h3 a b by blast
qed

section \<open>Properties of loading\<close>



text \<open>
  Claim C10. The constructor runs \<^verbatim>\<open>loadPostedJobs\<close> before it assigns
  \<^verbatim>\<open>this.activeWindowDays\<close>, so for a missing file and for a legacy array the
  \<^verbatim>\<open>metadata.activeWindowDays\<close> of the resulting store is undefined, while the manager's
  own field holds the configured value.
\<close>

theorem constructor_metadata_window_undefined:
  "activeWindowDaysMeta (metadata (data (constructor e now dateNow NoFile))) = None
   \<and> activeWindowDaysMeta (metadata (data (constructor e now dateNow (Json (RawArray ids))))) = None
   \<and> activeWindowDays (constructor e now dateNow file) = orDefault (ACTIVE_WINDOW_DAYS e) 7"
  by (simp add: constructor_def loadPostedJobs_def createEmptyDatabase_def migrateFromV1_def)

text \<open>
  Claim C7, at a failing input. A legacy list is wrapped into instances numbered 1 with
  unknown company and title, and the store is marked as migrated; but the instances are
  backdated by the constant 8 days, so with \<^verbatim>\<open>ACTIVE_WINDOW_DAYS=14\<close> the archive pass of
  the next save archives none of them and both stay in the active store.
\<close>

theorem migrated_jobs_stay_active:
  "activeWindowDays legacyManager = 14
   \<and> map instanceId (jobs (data legacyManager)) = [''job-1-migrated-0'', ''job-2-migrated-1'']
   \<and> map company (jobs (data legacyManager)) = [''Unknown (migrated)'', ''Unknown (migrated)'']
   \<and> map instanceNumber (jobs (data legacyManager)) = [1, 1]
   \<and> migratedFromV1 (metadata (data legacyManager)) = Some True
   \<and> map postedToDiscord (jobs (data legacyManager))
        = [1700000000000 - 8 * msPerDay, 1700000000000 - 8 * msPerDay]
   \<and> archiveOldJobs legacyManager 1700000001000 Map.empty
        = (legacyManager, Map.empty, \<lparr>archived = 0, active = 2, months = None\<rparr>, [])
   \<and> (case fst (savePostedJobs legacyManager 1700000001000 1700000001000 Map.empty writtenDocument) of
          Returned m' \<Rightarrow>
            map jobId (jobs (data m')) = [''job-1'', ''job-2'']
            \<and> map_option la_archived (lastArchive (metadata (data m'))) = Some 0
        | ProcessExit c \<Rightarrow> False)"
proof -
  have a: "activeWindowDays legacyManager = 14
   \<and> map postedToDiscord (jobs (data legacyManager))
        = [1700000000000 - 8 * msPerDay, 1700000000000 - 8 * msPerDay]
   \<and> archiveOldJobs legacyManager 1700000001000 Map.empty
        = (legacyManager, Map.empty, \<lparr>archived = 0, active = 2, months = None\<rparr>, [])"
    by (simp add: legacyManager_def constructor_def loadPostedJobs_def migrateFromV1_def
        migratedJob_def archiveOldJobs_def newDate_def laterThan_def Let_def orDefault_def
        msPerDay_def enumerate_eq_zip)
  have b: "map instanceId (jobs (data legacyManager)) = [''job-1-migrated-0'', ''job-2-migrated-1'']
   \<and> map company (jobs (data legacyManager)) = [''Unknown (migrated)'', ''Unknown (migrated)'']
   \<and> map instanceNumber (jobs (data legacyManager)) = [1, 1]
   \<and> migratedFromV1 (metadata (data legacyManager)) = Some True"
    by code_simp
  have c: "(case fst (savePostedJobs legacyManager 1700000001000 1700000001000 Map.empty writtenDocument) of
          Returned m' \<Rightarrow>
            map jobId (jobs (data m')) = [''job-1'', ''job-2'']
            \<and> map_option la_archived (lastArchive (metadata (data m'))) = Some 0
        | ProcessExit c \<Rightarrow> False)"
    by code_simp
  show ?thesis using a b c by blast
qed

section \<open>Grouping by month\<close>

lemma addToMonth_keys:
  "map fst (addToMonth k j acc) = (if k \<in> set (map fst acc) then map fst acc else map fst acc @ [k])"
  by (induction k j acc rule: addToMonth.induct) auto

lemma addToMonth_distinct:
  "distinct (map fst acc) \<Longrightarrow> distinct (map fst (addToMonth k j acc))"
  by (simp add: addToMonth_keys)

lemma addToMonth_map_of:
  "map_of (addToMonth k j acc) k' =
     (if k' = k then Some ((case map_of acc k of None \<Rightarrow> [] | Some js \<Rightarrow> js) @ [j])
      else map_of acc k')"
  by (induction k j acc rule: addToMonth.induct) auto

lemma groupInto_distinct:
  "distinct (map fst acc) \<Longrightarrow> distinct (map fst (groupInto acc js))"
  by (induction js arbitrary: acc) (auto simp: addToMonth_distinct)

lemma groupInto_map_of:
  "map_of (groupInto acc js) k =
     (case map_of acc k of
        None \<Rightarrow> (if filter (\<lambda>j. monthOf j = k) js = [] then None
                 else Some (filter (\<lambda>j. monthOf j = k) js))
      | Some old \<Rightarrow> Some (old @ filter (\<lambda>j. monthOf j = k) js))"
proof (induction js arbitrary: acc)
  case Nil
  then show ?case by (simp split: option.splits)
next
  case (Cons j js)
  show ?case
    by (simp add: Cons.IH addToMonth_map_of split: option.splits)
qed

lemma groupByMonth_distinct: "distinct (map fst (groupByMonth js))"
  unfolding groupByMonth_def by (rule groupInto_distinct) simp

lemma groupByMonth_map_of:
  "map_of (groupByMonth js) k =
     (if filter (\<lambda>j. monthOf j = k) js = [] then None else Some (filter (\<lambda>j. monthOf j = k) js))"
  unfolding groupByMonth_def by (simp add: groupInto_map_of)

lemma groupByMonth_mem:
  "(k, l) \<in> set (groupByMonth js) \<longleftrightarrow> l = filter (\<lambda>j. monthOf j = k) js \<and> l \<noteq> []"
  using map_of_eq_Some_iff [OF groupByMonth_distinct, of js k l]
  by (auto simp: groupByMonth_map_of split: if_splits)

lemma groupByMonth_union: "(\<Union>g \<in> set (groupByMonth js). set (snd g)) = set js"
proof
  show "(\<Union>g \<in> set (groupByMonth js). set (snd g)) \<subseteq> set js"
    by (auto simp: groupByMonth_mem)
  show "set js \<subseteq> (\<Union>g \<in> set (groupByMonth js). set (snd g))"
  proof
    fix j assume j: "j \<in> set js"
    let ?l = "filter (\<lambda>x. monthOf x = monthOf j) js"
    have "j \<in> set ?l" using j by simp
    have "?l \<noteq> []" using j by (auto simp: filter_empty_conv)
    then have "(monthOf j, ?l) \<in> set (groupByMonth js)"
      by (simp only: groupByMonth_mem simp_thms)
    then show "j \<in> (\<Union>g \<in> set (groupByMonth js). set (snd g))"
      using \<open>j \<in> set ?l\<close> by force
  qed
qed

section \<open>Merging into a bucket\<close>

lemma set_newJobs:
  "set (newJobs ex js) = {j \<in> set js. instanceId j \<notin> instanceId ` set ex}"
  by (auto simp: newJobs_def)

lemma set_mergedArchive:
  "set (mergedArchive ex js) = set ex \<union> {j \<in> set js. instanceId j \<notin> instanceId ` set ex}"
  by (simp add: mergedArchive_def set_newJobs)

lemma ids_mergedArchive:
  "instanceId ` set (mergedArchive ex js) = instanceId ` set ex \<union> instanceId ` set js"
  by (auto simp: set_mergedArchive)

lemma newJobs_after_merge: "newJobs (mergedArchive ex js) js = []"
proof -
  have "\<forall>j \<in> set js. instanceId j \<in> instanceId ` set (mergedArchive ex js)"
    by (simp add: ids_mergedArchive)
  then show ?thesis
    by (simp add: newJobs_def filter_empty_conv)
qed

lemma mergedArchive_idem: "mergedArchive (mergedArchive ex js) js = mergedArchive ex js"
proof -
  have "sorted (map postedToDiscord (mergedArchive ex js))"
    by (simp add: mergedArchive_def)
  then have "sort_key postedToDiscord (mergedArchive ex js) = mergedArchive ex js"
    by (rule sort_key_id_if_sorted)
  then show ?thesis
    unfolding mergedArchive_def [of "mergedArchive ex js" js] newJobs_after_merge by simp
qed

lemma distinct_map_insort_key:
  "distinct (map f (insort_key g x xs)) \<longleftrightarrow> f x \<notin> f ` set xs \<and> distinct (map f xs)"
  by (induction xs) (auto simp: set_insort_key)

lemma distinct_map_sort_key:
  "distinct (map f (sort_key g xs)) \<longleftrightarrow> distinct (map f xs)"
  by (induction xs) (auto simp: distinct_map_insort_key)

lemma distinct_mergedArchive:
  assumes "distinct (map instanceId ex)" and "distinct (map instanceId js)"
  shows "distinct (map instanceId (mergedArchive ex js))"
proof -
  have d: "distinct (map instanceId (newJobs ex js))"
    using assms(2) by (simp add: newJobs_def distinct_map_filter)
  have "distinct (map instanceId (ex @ newJobs ex js))"
  proof -
    have "instanceId ` set ex \<inter> instanceId ` set (newJobs ex js) = {}"
      by (auto simp: set_newJobs) (metis imageI)
    then show ?thesis using assms(1) d by simp
  qed
  then show ?thesis
    unfolding mergedArchive_def by (simp only: distinct_map_sort_key)
qed

lemma UN_split_at: "(\<Union>k'. f k') = f k \<union> (\<Union>k' \<in> - {k}. f k')"
  by auto

lemma archivedJobs_split:
  "archivedJobs dir = set (loadArchive (dir k)) \<union> (\<Union>k' \<in> - {k}. set (loadArchive (dir k')))"
  unfolding archivedJobs_def by (rule UN_split_at)

lemma archivedJobs_upd:
  "archivedJobs (dir(k \<mapsto> JobArray l)) = set l \<union> (\<Union>k' \<in> - {k}. set (loadArchive (dir k')))"
proof -
  have "loadArchive ((dir(k \<mapsto> JobArray l)) k) = l"
    by (simp add: loadArchive_def)
  then show ?thesis
    by (subst archivedJobs_split [of _ k]) simp
qed

lemma archiveMonth_simp:
  "archiveMonth (dir, n, c) (k, js) =
     (dir(k \<mapsto> JobArray (mergedArchive (loadArchive (dir k)) js)),
      n + length (newJobs (loadArchive (dir k)) js),
      c @ loadArchiveCalls (archivePath k) (dir k) @ atomicWriteCalls (archivePath k))"
  by (simp add: archiveMonth_def Let_def)

lemma ids_archiveMonth:
  "instanceId ` archivedJobs (fst (archiveMonth (dir, n, c) (k, js)))
     = instanceId ` archivedJobs dir \<union> instanceId ` set js"
proof -
  have "instanceId ` archivedJobs (fst (archiveMonth (dir, n, c) (k, js)))
      = instanceId ` set (mergedArchive (loadArchive (dir k)) js)
          \<union> instanceId ` (\<Union>k' \<in> - {k}. set (loadArchive (dir k')))"
    by (simp add: archiveMonth_simp archivedJobs_upd image_Un)
  also have "\<dots> = (instanceId ` set (loadArchive (dir k)) \<union> instanceId ` set js)
          \<union> instanceId ` (\<Union>k' \<in> - {k}. set (loadArchive (dir k')))"
    by (simp only: ids_mergedArchive)
  also have "\<dots> = instanceId ` archivedJobs dir \<union> instanceId ` set js"
    by (subst archivedJobs_split [of dir k]) (simp add: image_Un Un_ac)
  finally show ?thesis .
qed

lemma ids_archive_fold:
  "instanceId ` archivedJobs (fst (foldl archiveMonth acc gs))
     = instanceId ` archivedJobs (fst acc) \<union> instanceId ` (\<Union>g \<in> set gs. set (snd g))"
proof (induction gs arbitrary: acc)
  case Nil
  then show ?case by simp
next
  case (Cons g gs)
  obtain dir n c where acc: "acc = (dir, n, c)" by (cases acc)
  obtain k js where g: "g = (k, js)" by (cases g)
  show ?case
    by (simp add: Cons.IH acc g ids_archiveMonth image_Un Un_ac)
qed

section \<open>The archive operation\<close>

lemma filter_neg_empty: "filter (\<lambda>x. \<not> P x) xs = [] \<Longrightarrow> filter P xs = xs"
  by (induction xs) (auto split: if_splits)

lemma archiveOldJobs_unfold:
  "archiveOldJobs m now dir =
     (if filter (\<lambda>j. \<not> isActive m now j) (jobs (data m)) = []
      then (m, dir,
            \<lparr>archived = 0,
             active = length (filter (isActive m now)
                                (jobs (data m))),
             months = None\<rparr>, [])
      else
        (let activeJobs = filter (isActive m now)
                            (jobs (data m));
             jobsByMonth = groupByMonth
               (filter (\<lambda>j. \<not> isActive m now j)
                  (jobs (data m)));
             r = foldl archiveMonth (dir, 0, []) jobsByMonth
         in (m\<lparr>data := (data m)\<lparr>jobs := activeJobs,
                   metadata := (metadata (data m))\<lparr>totalJobs := length activeJobs\<rparr>\<rparr>\<rparr>,
             fst r,
             \<lparr>archived = fst (snd r), active = length activeJobs, months = Some (length jobsByMonth)\<rparr>,
             snd (snd r))))"
  by (simp add: archiveOldJobs_def isActive_def [abs_def] Let_def case_prod_beta)

lemma archiveOldJobs_jobs:
  "jobs (data (fst (archiveOldJobs m now dir)))
     = filter (isActive m now) (jobs (data m))"
  by (simp add: archiveOldJobs_unfold Let_def filter_neg_empty)

lemma archiveOldJobs_windows:
  "activeWindowDays (fst (archiveOldJobs m now dir)) = activeWindowDays m"
  "reopeningWindowDays (fst (archiveOldJobs m now dir)) = reopeningWindowDays m"
  by (simp_all add: archiveOldJobs_unfold Let_def)

lemma archiveOldJobs_dir:
  "fst (snd (archiveOldJobs m now dir))
     = fst (foldl archiveMonth (dir, 0, [])
         (groupByMonth (filter (\<lambda>j. \<not> isActive m now j)
            (jobs (data m)))))"
proof -
  have "groupByMonth [] = []" by (simp add: groupByMonth_def)
  then show ?thesis
    by (simp add: archiveOldJobs_unfold Let_def)
qed

lemma archiveOldJobs_ids:
  "instanceId ` allJobs (fst (archiveOldJobs m now dir), fst (snd (archiveOldJobs m now dir)))
     = instanceId ` allJobs (m, dir)"
proof -
  let ?P = "isActive m now"
  have "set (filter ?P (jobs (data m))) \<union> set (filter (\<lambda>j. \<not> ?P j) (jobs (data m)))
          = set (jobs (data m))"
    by auto
  then have "instanceId ` set (filter ?P (jobs (data m)))
          \<union> instanceId ` set (filter (\<lambda>j. \<not> ?P j) (jobs (data m)))
          = instanceId ` set (jobs (data m))"
    by (metis image_Un)
  then show ?thesis
    unfolding allJobs_def fst_conv snd_conv archiveOldJobs_jobs archiveOldJobs_dir
      image_Un ids_archive_fold groupByMonth_union
    by auto
qed

lemma archiveOldJobs_again:
  assumes "\<forall>j \<in> set (jobs (data m)). isActive m now j"
  shows "archiveOldJobs m now dir
           = (m, dir, \<lparr>archived = 0, active = length (jobs (data m)), months = None\<rparr>, [])"
proof -
  have "filter (\<lambda>j. \<not> isActive m now j) (jobs (data m)) = []"
    using assms by (simp add: filter_empty_conv)
  moreover have "filter (isActive m now) (jobs (data m))
                   = jobs (data m)"
    using assms by (simp add: filter_id_conv)
  ultimately show ?thesis
    by (simp add: archiveOldJobs_unfold)
qed

lemma archive_fold:
  assumes "distinct (map fst gs)"
  shows "foldl archiveMonth (dir, n, c) gs
           = (bucketAfter dir gs,
              n + sum_list (map (bucketInserted dir) gs),
              c @ concat (map (bucketCalls dir) gs))"
  using assms
proof (induction gs arbitrary: dir n c)
  case Nil
  show ?case by (simp add: bucketAfter_def)
next
  case (Cons g gs)
  obtain k js where g: "g = (k, js)" by (cases g)
  define dir1 where "dir1 = dir(k \<mapsto> JobArray (mergedArchive (loadArchive (dir k)) js))"
  have k: "k \<notin> fst ` set gs" and d: "distinct (map fst gs)"
    using Cons.prems g by auto
  have same: "\<And>h. h \<in> set gs \<Longrightarrow> dir1 (fst h) = dir (fst h)"
    using k by (auto simp: dir1_def)
  have i: "map (bucketInserted dir1) gs = map (bucketInserted dir) gs"
    by (rule map_cong [OF refl]) (simp add: bucketInserted_def same)
  have cs: "map (bucketCalls dir1) gs = map (bucketCalls dir) gs"
    by (rule map_cong [OF refl]) (simp add: bucketCalls_def same)
  have b: "bucketAfter dir1 gs = bucketAfter dir (g # gs)"
  proof
    fix k'
    show "bucketAfter dir1 gs k' = bucketAfter dir (g # gs) k'"
    proof (cases "k' = k")
      case True
      then have "map_of gs k' = None" using k by (simp add: map_of_eq_None_iff)
      then show ?thesis using True by (simp add: bucketAfter_def g dir1_def)
    next
      case False
      then show ?thesis by (simp add: bucketAfter_def g dir1_def split: option.splits)
    qed
  qed
  have "foldl archiveMonth (dir, n, c) (g # gs)
          = foldl archiveMonth (dir1, n + bucketInserted dir g, c @ bucketCalls dir g) gs"
    by (simp add: g archiveMonth_simp bucketInserted_def bucketCalls_def dir1_def)
  also have "\<dots> = (bucketAfter dir1 gs,
              n + bucketInserted dir g + sum_list (map (bucketInserted dir1) gs),
              (c @ bucketCalls dir g) @ concat (map (bucketCalls dir1) gs))"
    by (rule Cons.IH [OF d])
  finally show ?case by (simp add: i cs b)
qed

lemma groupByMonth_Nil: "groupByMonth [] = []"
  by (simp add: groupByMonth_def)

lemma bucketAfter_Nil: "bucketAfter dir [] = dir"
  by (rule ext) (simp add: bucketAfter_def)

lemma archiveOldJobs_closed:
  "fst (snd (archiveOldJobs m now dir)) = bucketAfter dir (groupByMonth (agedJobs m now))"
  "archived (fst (snd (snd (archiveOldJobs m now dir))))
     = sum_list (map (bucketInserted dir) (groupByMonth (agedJobs m now)))"
  "snd (snd (snd (archiveOldJobs m now dir)))
     = concat (map (bucketCalls dir) (groupByMonth (agedJobs m now)))"
  unfolding archiveOldJobs_unfold agedJobs_def [symmetric]
  by (simp_all add: Let_def archive_fold [OF groupByMonth_distinct] groupByMonth_Nil bucketAfter_Nil)

lemma bucketAfter_groupByMonth:
  "bucketAfter dir (groupByMonth js) k =
     (if filter (\<lambda>j. monthOf j = k) js = [] then dir k
      else Some (JobArray (mergedArchive (loadArchive (dir k)) (filter (\<lambda>j. monthOf j = k) js))))"
  by (simp add: bucketAfter_def groupByMonth_map_of)

lemma bucketAfter_again:
  assumes "distinct (map fst gs)"
  shows "bucketAfter (bucketAfter dir gs) gs = bucketAfter dir gs"
proof
  fix k
  show "bucketAfter (bucketAfter dir gs) gs k = bucketAfter dir gs k"
    by (cases "map_of gs k") (simp_all add: bucketAfter_def loadArchive_def mergedArchive_idem)
qed

lemma bucketInserted_again:
  assumes "distinct (map fst gs)" and "g \<in> set gs"
  shows "bucketInserted (bucketAfter dir gs) g = 0"
proof -
  obtain k js where g: "g = (k, js)" by (cases g)
  have "map_of gs k = Some js"
    using assms g by simp
  then show ?thesis
    by (simp add: bucketInserted_def bucketAfter_def g loadArchive_def newJobs_after_merge)
qed

lemma archiveOldJobs_rearchive:
  "fst (snd (archiveOldJobs m now (fst (snd (archiveOldJobs m now dir)))))
     = fst (snd (archiveOldJobs m now dir))"
  "archived (fst (snd (snd (archiveOldJobs m now (fst (snd (archiveOldJobs m now dir))))))) = 0"
proof -
  let ?gs = "groupByMonth (agedJobs m now)"
  show "fst (snd (archiveOldJobs m now (fst (snd (archiveOldJobs m now dir)))))
     = fst (snd (archiveOldJobs m now dir))"
    by (simp only: archiveOldJobs_closed bucketAfter_again [OF groupByMonth_distinct])
  have "map (bucketInserted (bucketAfter dir ?gs)) ?gs = map (\<lambda>g. 0) ?gs"
    by (rule map_cong [OF refl]) (rule bucketInserted_again [OF groupByMonth_distinct])
  then show "archived (fst (snd (snd (archiveOldJobs m now (fst (snd (archiveOldJobs m now dir))))))) = 0"
    by (simp only: archiveOldJobs_closed) simp
qed

text \<open>
  Claim C6. Running \<^verbatim>\<open>archiveOldJobs\<close> again at the same instant on the manager and
  archive directory the first run left archives nothing, changes neither, and makes no
  file call; the same holds at any instant at which every job of the store passes the
  test against the cutoff, that is, the cutoff is a valid date and every job was posted
  after it. Running it again on the original store against the buckets the first run
  wrote leaves every bucket as it is and inserts no job: the merge is keyed by the
  instance id.
\<close>

theorem archiveOldJobs_idempotent:
  "archiveOldJobs (fst (archiveOldJobs m now dir)) now (fst (snd (archiveOldJobs m now dir)))
     = (fst (archiveOldJobs m now dir), fst (snd (archiveOldJobs m now dir)),
        \<lparr>archived = 0, active = length (jobs (data (fst (archiveOldJobs m now dir)))), months = None\<rparr>,
        [])
   \<and> ((\<forall>j \<in> set (jobs (data m1)). isActive m1 now2 j) \<longrightarrow>
        archiveOldJobs m1 now2 dir1
          = (m1, dir1, \<lparr>archived = 0, active = length (jobs (data m1)), months = None\<rparr>, []))
   \<and> (validCutoff m1 now2
        \<and> (\<forall>j \<in> set (jobs (data m1)). postedToDiscord j > now2 - activeWindowDays m1 * msPerDay) \<longrightarrow>
        archiveOldJobs m1 now2 dir1
          = (m1, dir1, \<lparr>archived = 0, active = length (jobs (data m1)), months = None\<rparr>, []))
   \<and> fst (snd (archiveOldJobs m now (fst (snd (archiveOldJobs m now dir)))))
        = fst (snd (archiveOldJobs m now dir))
   \<and> archived (fst (snd (snd (archiveOldJobs m now (fst (snd (archiveOldJobs m now dir))))))) = 0"
proof -
  let ?m1 = "fst (archiveOldJobs m now dir)"
  have "\<forall>j \<in> set (jobs (data ?m1)). isActive ?m1 now j"
    by (simp add: archiveOldJobs_jobs isActive_window [OF archiveOldJobs_windows(1)])
  then have a: "archiveOldJobs ?m1 now (fst (snd (archiveOldJobs m now dir)))
     = (?m1, fst (snd (archiveOldJobs m now dir)),
        \<lparr>archived = 0, active = length (jobs (data ?m1)), months = None\<rparr>, [])"
    by (rule archiveOldJobs_again)
  have b: "(\<forall>j \<in> set (jobs (data m1)). isActive m1 now2 j) \<longrightarrow>
        archiveOldJobs m1 now2 dir1
          = (m1, dir1, \<lparr>archived = 0, active = length (jobs (data m1)), months = None\<rparr>, [])"
    using archiveOldJobs_again [of m1 now2 dir1] by blast
  have c: "validCutoff m1 now2
        \<and> (\<forall>j \<in> set (jobs (data m1)). postedToDiscord j > now2 - activeWindowDays m1 * msPerDay) \<longrightarrow>
        archiveOldJobs m1 now2 dir1
          = (m1, dir1, \<lparr>archived = 0, active = length (jobs (data m1)), months = None\<rparr>, [])"
    using b by (simp add: isActive_iff)
  show ?thesis
    using a b c archiveOldJobs_rearchive [of m now dir] by blast
qed

theorem archiveOldJobs_idempotent_witness:
  "archived (fst (snd (snd (archiveOldJobs exampleManager 1700864000000 Map.empty)))) = 1
   \<and> archived (fst (snd (snd (archiveOldJobs (fst (archiveOldJobs exampleManager 1700864000000 Map.empty))
        1700864000000 (fst (snd (archiveOldJobs exampleManager 1700864000000 Map.empty))))))) = 0
   \<and> archiveOldJobs exampleManager 1700086400000 Map.empty
        = (exampleManager, Map.empty, \<lparr>archived = 0, active = 1, months = None\<rparr>, [])"
proof -
  have a: "archived (fst (snd (snd (archiveOldJobs exampleManager 1700864000000 Map.empty)))) = 1"
    by code_simp
  have v: "validCutoff exampleManager 1700086400000"
    by (simp add: validCutoff_def exampleManager_def msPerDay_def)
  have h: "\<forall>j \<in> set (jobs (data exampleManager)).
             postedToDiscord j > 1700086400000 - activeWindowDays exampleManager * msPerDay"
    by (simp add: exampleManager_def exampleJob_def msPerDay_def)
  have l: "length (jobs (data exampleManager)) = 1"
    by (simp add: exampleManager_def)
  show ?thesis
    using archiveOldJobs_idempotent [of exampleManager 1700864000000 Map.empty exampleManager
        1700086400000 Map.empty] a v h l
    by simp
qed

section \<open>Saving, appending and runs\<close>

lemma savePostedJobs_unfold:
  "savePostedJobs m now archiveNow dir readBack =
     (let r = archiveOldJobs m archiveNow dir;
          d = savedDatabase (fst r) now (fst (snd (snd r)))
      in (if verifyJobsLength (readBack d) = Some (length (jobs d))
          then Returned ((fst r)\<lparr>data := d\<rparr>) else ProcessExit 1,
          fst (snd r),
          snd (snd (snd r)) @ atomicWriteCalls postedJobsPath @ [ReadFileSync postedJobsPath]))"
  by (auto simp: savePostedJobs_def savedDatabase_def Let_def case_prod_beta split: option.splits)

lemma jobs_savedDatabase: "jobs (savedDatabase m1 now st) = jobs (data m1)"
  by (simp add: savedDatabase_def)

lemma savePostedJobs_Returned:
  assumes "savePostedJobs m now archiveNow dir readBack = (Returned m', dir', calls)"
  shows "jobs (data m') = jobs (data (fst (archiveOldJobs m archiveNow dir)))"
    and "dir' = fst (snd (archiveOldJobs m archiveNow dir))"
    and "activeWindowDays m' = activeWindowDays m"
    and "reopeningWindowDays m' = reopeningWindowDays m"
  using assms
  by (auto simp: savePostedJobs_unfold Let_def jobs_savedDatabase archiveOldJobs_windows
      split: if_splits)

lemma savePostedJobs_reliable:
  "\<exists>m' calls. savePostedJobs m now archiveNow dir writtenDocument
      = (Returned m', fst (snd (archiveOldJobs m archiveNow dir)), calls)"
  by (simp add: savePostedJobs_unfold Let_def writtenDocument_def verifyJobsLength_def)

lemma markAsPosted_unfold:
  "markAsPosted m now saveNow archiveNow dir readBack jid jobData threadId
     = savePostedJobs (pushed m now jid jobData threadId) saveNow archiveNow dir readBack"
  by (simp add: markAsPosted_def pushed_def Let_def)

lemma pushed_simps:
  "jobs (data (pushed m now jid jobData threadId)) = jobs (data m) @ [newJob m now jid jobData threadId]"
  "activeWindowDays (pushed m now jid jobData threadId) = activeWindowDays m"
  "reopeningWindowDays (pushed m now jid jobData threadId) = reopeningWindowDays m"
  by (simp_all add: pushed_def)

lemma step_Some:
  assumes "step readBack (m, dir) x = Some (m', dir')"
  shows "jobs (data m') =
           filter (isActive m (archiveInstant x)) (jobs (data m) @ created (m, dir) x)"
    and "activeWindowDays m' = activeWindowDays m"
    and "instanceId ` allJobs (m', dir') = instanceId ` allJobs (m, dir) \<union> instanceId ` set (created (m, dir) x)"
proof -
  show "jobs (data m') =
           filter (isActive m (archiveInstant x)) (jobs (data m) @ created (m, dir) x)"
  proof (cases x)
    case (MarkAsPosted now saveNow archiveNow jid jobData threadId)
    then obtain calls where
      "savePostedJobs (pushed m now jid jobData threadId) saveNow archiveNow dir readBack
         = (Returned m', dir', calls)"
      using assms by (auto simp: markAsPosted_unfold split: prod.splits outcome.splits)
    from savePostedJobs_Returned(1) [OF this] show ?thesis
      by (simp add: MarkAsPosted archiveOldJobs_jobs pushed_simps
          isActive_window [OF pushed_simps(2)] cong: filter_cong)
  next
    case (ArchiveOldJobs now)
    then have "m' = fst (archiveOldJobs m now dir)"
      using assms by (auto split: prod.splits)
    then show ?thesis
      by (simp add: ArchiveOldJobs archiveOldJobs_jobs)
  qed
  show "activeWindowDays m' = activeWindowDays m"
  proof (cases x)
    case (MarkAsPosted now saveNow archiveNow jid jobData threadId)
    then obtain calls where
      "savePostedJobs (pushed m now jid jobData threadId) saveNow archiveNow dir readBack
         = (Returned m', dir', calls)"
      using assms by (auto simp: markAsPosted_unfold split: prod.splits outcome.splits)
    from savePostedJobs_Returned(3) [OF this] show ?thesis
      by (simp add: pushed_simps)
  next
    case (ArchiveOldJobs now)
    then have "m' = fst (archiveOldJobs m now dir)"
      using assms by (auto split: prod.splits)
    then show ?thesis
      by (simp add: archiveOldJobs_windows)
  qed
  show "instanceId ` allJobs (m', dir') = instanceId ` allJobs (m, dir) \<union> instanceId ` set (created (m, dir) x)"
  proof (cases x)
    case (MarkAsPosted now saveNow archiveNow jid jobData threadId)
    let ?p = "pushed m now jid jobData threadId"
    obtain calls where
      s: "savePostedJobs ?p saveNow archiveNow dir readBack = (Returned m', dir', calls)"
      using assms MarkAsPosted by (auto simp: markAsPosted_unfold split: prod.splits outcome.splits)
    have "instanceId ` allJobs (m', dir')
            = instanceId ` allJobs (fst (archiveOldJobs ?p archiveNow dir),
                                    fst (snd (archiveOldJobs ?p archiveNow dir)))"
      using savePostedJobs_Returned(1,2) [OF s] by (simp add: allJobs_def)
    also have "\<dots> = instanceId ` allJobs (?p, dir)"
      by (rule archiveOldJobs_ids)
    also have "\<dots> = instanceId ` allJobs (m, dir) \<union> instanceId ` set (created (m, dir) x)"
      by (auto simp: allJobs_def pushed_simps MarkAsPosted)
    finally show ?thesis .
  next
    case (ArchiveOldJobs now)
    then have "m' = fst (archiveOldJobs m now dir)" "dir' = fst (snd (archiveOldJobs m now dir))"
      using assms by (auto split: prod.splits)
    then show ?thesis
      using archiveOldJobs_ids [of m now dir] by (simp add: ArchiveOldJobs)
  qed
qed

lemma step_reliable: "\<exists>s'. step writtenDocument s x = Some s'"
proof (cases s)
  case (Pair m dir)
  show ?thesis
  proof (cases x)
    case (MarkAsPosted now saveNow archiveNow jid jobData threadId)
    obtain m' calls where
      "savePostedJobs (pushed m now jid jobData threadId) saveNow archiveNow dir writtenDocument
        = (Returned m', fst (snd (archiveOldJobs (pushed m now jid jobData threadId) archiveNow dir)), calls)"
      using savePostedJobs_reliable by blast
    then show ?thesis by (simp add: Pair MarkAsPosted markAsPosted_unfold)
  next
    case (ArchiveOldJobs now)
    then show ?thesis by (simp add: Pair split: prod.splits)
  qed
qed

lemma run_reliable: "\<exists>s'. run writtenDocument s xs = Some s'"
proof (induction xs arbitrary: s)
  case Nil
  then show ?case by simp
next
  case (Cons x xs)
  obtain s1 where "step writtenDocument s x = Some s1" using step_reliable by blast
  then show ?case using Cons.IH [of s1] by simp
qed

lemma run_ids:
  "run readBack s xs = Some s' \<Longrightarrow>
     instanceId ` allJobs s' = instanceId ` allJobs s \<union> instanceId ` set (appended readBack s xs)"
proof (induction xs arbitrary: s)
  case Nil
  then show ?case by simp
next
  case (Cons x xs)
  from Cons.prems obtain s1 where s1: "step readBack s x = Some s1" "run readBack s1 xs = Some s'"
    by (auto split: option.splits)
  obtain m dir where s: "s = (m, dir)" by (cases s)
  obtain m1 dir1 where s1': "s1 = (m1, dir1)" by (cases s1)
  have "instanceId ` allJobs s1 = instanceId ` allJobs s \<union> instanceId ` set (created s x)"
    using step_Some(3) [of readBack m dir x m1 dir1] s1(1) s s1' by simp
  then show ?case
    using Cons.IH [OF s1(2)] s1(1) by (simp add: image_Un Un_assoc)
qed

lemma step_bucket:
  assumes "step readBack (m, dir) x = Some (m', dir')"
      and "\<forall>j \<in> set (jobs (data m) @ created (m, dir) x). monthOf j \<noteq> k"
  shows "dir' k = dir k"
proof (cases x)
  case (MarkAsPosted now saveNow archiveNow jid jobData threadId)
  let ?p = "pushed m now jid jobData threadId"
  obtain calls where
    s: "savePostedJobs ?p saveNow archiveNow dir readBack = (Returned m', dir', calls)"
    using assms(1) MarkAsPosted by (auto simp: markAsPosted_unfold split: prod.splits outcome.splits)
  have "filter (\<lambda>j. monthOf j = k) (agedJobs ?p archiveNow) = []"
    using assms(2) by (auto simp: agedJobs_def pushed_simps MarkAsPosted filter_empty_conv)
  then show ?thesis
    using savePostedJobs_Returned(2) [OF s]
    by (simp add: archiveOldJobs_closed bucketAfter_groupByMonth)
next
  case (ArchiveOldJobs now)
  then have d: "dir' = fst (snd (archiveOldJobs m now dir))"
    using assms(1) by (auto split: prod.splits)
  have "filter (\<lambda>j. monthOf j = k) (agedJobs m now) = []"
    using assms(2) by (auto simp: agedJobs_def filter_empty_conv)
  then show ?thesis
    by (simp add: d archiveOldJobs_closed bucketAfter_groupByMonth)
qed

lemma run_bucket:
  assumes "run readBack s xs = Some s'"
      and "\<forall>j \<in> set (jobs (data (fst s)) @ appended readBack s xs). monthOf j \<noteq> k"
  shows "snd s' k = snd s k"
  using assms
proof (induction xs arbitrary: s)
  case Nil
  then show ?case by simp
next
  case (Cons x xs)
  from Cons.prems(1) obtain s1 where s1: "step readBack s x = Some s1" "run readBack s1 xs = Some s'"
    by (auto split: option.splits)
  obtain m dir where s: "s = (m, dir)" by (cases s)
  obtain m1 dir1 where s1': "s1 = (m1, dir1)" by (cases s1)
  have st: "step readBack (m, dir) x = Some (m1, dir1)" using s1(1) s s1' by simp
  have a: "\<forall>j \<in> set (jobs (data m) @ created (m, dir) x). monthOf j \<noteq> k"
    using Cons.prems(2) s by auto
  have b: "dir1 k = dir k" by (rule step_bucket [OF st a])
  have "set (jobs (data m1)) \<subseteq> set (jobs (data m) @ created (m, dir) x)"
    by (auto simp: step_Some(1) [OF st])
  then have "\<forall>j \<in> set (jobs (data (fst s1)) @ appended readBack s1 xs). monthOf j \<noteq> k"
    using Cons.prems(2) a s s1' s1(1) by auto
  then have "snd s' k = snd s1 k" by (rule Cons.IH [OF s1(2)])
  then show ?case using b s s1' by simp
qed

lemma hasBeenPosted_unfold:
  "hasBeenPosted m now jid jobData =
     (let instances = filter (\<lambda>j. jobId j = jid) (jobs (data m)) in
      if instances = [] then False
      else if list_ex (isActive m now) instances
      then True
      else
            (case sourceDateOf jobData of
               Some InvalidDate \<Rightarrow> True
             | Some (ValidDate sd) \<Rightarrow>
                 \<not> (of_int (now - sd) :: rat) / of_int msPerDay \<le> of_int (reopeningWindowDays m)
             | None \<Rightarrow>
                 (case sort_key postedToDiscord instances of
                    [] \<Rightarrow> True
                  | oldestInstance # _ \<Rightarrow>
                      \<not> (of_int (now - postedToDiscord oldestInstance) :: rat)
                               / of_int (msPerDay * 30) \<ge> 3)))"
proof -
  have a: "(1000 * 60 * 60 * 24 :: rat) = of_int msPerDay"
          "(1000 * 60 * 60 * 24 * 30 :: rat) = of_int (msPerDay * 30)"
    by (simp_all add: msPerDay_def)
  show ?thesis
    unfolding hasBeenPosted_def isActive_def [abs_def] a
    by (simp add: Let_def split: option.splits date_value.splits list.splits)
qed

lemma hasBeenPosted_active:
  assumes "j \<in> set (jobs (data m))" and "jobId j = jid" and "isActive m now j"
  shows "hasBeenPosted m now jid jobData"
proof -
  have "j \<in> set (filter (\<lambda>j. jobId j = jid) (jobs (data m)))"
    using assms by simp
  then show ?thesis
    using assms(3) unfolding hasBeenPosted_unfold Let_def list_ex_iff
    by (metis empty_iff empty_set)
qed

lemma hasBeenPosted_unknown:
  assumes "\<not> (\<exists>j \<in> set (jobs (data m)). jobId j = jid)"
  shows "\<not> hasBeenPosted m now jid jobData"
proof -
  have "filter (\<lambda>j. jobId j = jid) (jobs (data m)) = []"
    using assms by (simp add: filter_empty_conv)
  then show ?thesis by (simp add: hasBeenPosted_unfold)
qed

lemma run_keeps_fresh:
  assumes "run readBack s xs = Some s'"
      and "j \<in> set (jobs (data (fst s)))"
      and "postedToDiscord j > now - activeWindowDays (fst s) * msPerDay"
      and "\<forall>x \<in> set xs. archiveInstant x \<le> now \<and> validCutoff (fst s) (archiveInstant x)"
  shows "j \<in> set (jobs (data (fst s'))) \<and> activeWindowDays (fst s') = activeWindowDays (fst s)"
  using assms
proof (induction xs arbitrary: s)
  case Nil
  then show ?case by simp
next
  case (Cons x xs)
  from Cons.prems(1) obtain s1 where s1: "step readBack s x = Some s1" "run readBack s1 xs = Some s'"
    by (auto split: option.splits)
  obtain m dir where s: "s = (m, dir)" by (cases s)
  obtain m1 dir1 where s1': "s1 = (m1, dir1)" by (cases s1)
  have st: "step readBack (m, dir) x = Some (m1, dir1)" using s1(1) s s1' by simp
  have w: "activeWindowDays m1 = activeWindowDays m"
    by (rule step_Some(2) [OF st])
  have "archiveInstant x \<le> now" and v: "validCutoff m (archiveInstant x)"
    using Cons.prems(4) s by simp_all
  then have "postedToDiscord j > archiveInstant x - activeWindowDays m * msPerDay"
    using Cons.prems(3) s by simp
  then have "isActive m (archiveInstant x) j"
    using v by (simp add: isActive_iff)
  then have in1: "j \<in> set (jobs (data (fst s1)))"
    using Cons.prems(2) s s1' by (simp add: step_Some(1) [OF st])
  have v': "\<forall>x \<in> set xs. archiveInstant x \<le> now \<and> validCutoff (fst s1) (archiveInstant x)"
    using Cons.prems(4) s s1' w by (simp add: validCutoff_def)
  have "postedToDiscord j > now - activeWindowDays (fst s1) * msPerDay"
    using Cons.prems(3) s s1' w by simp
  then have "j \<in> set (jobs (data (fst s'))) \<and> activeWindowDays (fst s') = activeWindowDays (fst s1)"
    using Cons.IH [OF s1(2) in1 _ v'] by simp
  then show ?case using s s1' w by simp
qed

text \<open>
  Claim C3, as stated, at an input where it fails. With \<^verbatim>\<open>ACTIVE_WINDOW_DAYS=200000000\<close>
  the cutoff lies before the earliest Date, so it is an Invalid Date and every
  comparison with it is false: the archive pass of the very call that appends the job
  moves it to a bucket, and one second later, well within the window,
  \<^verbatim>\<open>hasBeenPosted\<close> returns false.
\<close>

theorem hasBeenPosted_recency_counterexample:
  "(1700000000000 :: int) \<le> 1700000001000
   \<and> 1700000001000 < 1700000000000 + activeWindowDays wideManager * msPerDay
   \<and> (case run writtenDocument (wideManager, Map.empty)
             [MarkAsPosted 1700000000000 1700000000000 1700000000000 ''A'' (exampleJobData None) None] of
         Some s' \<Rightarrow>
           jobs (data (fst s')) = []
           \<and> map instanceId (loadArchive (snd s' ''2023-11'')) = [''A-2023-11-14-1'']
           \<and> \<not> hasBeenPosted (fst s') 1700000001000 ''A'' None
       | None \<Rightarrow> False)"
  by code_simp

text \<open>
  Claim C3, amended. After \<^verbatim>\<open>markAsPosted\<close> of a job at the instant \<open>t\<close>, followed by any
  calls whose archive cutoffs are computed no later than the query, \<^verbatim>\<open>hasBeenPosted\<close>
  returns true at every query instant before \<open>t\<close> plus \<open>activeWindowDays\<close> days, provided
  the cutoff of every archive pass and of the query is within the range of a Date (which
  holds whenever the clock is past the epoch and the window is between 0 and 100,000,000
  days). When the active store holds no instance of the job, it returns false.
\<close>

theorem hasBeenPosted_recency:
  "(run readBack s (MarkAsPosted t saveNow archiveNow jid jobData threadId # xs) = Some s'
      \<and> (\<forall>x \<in> set (MarkAsPosted t saveNow archiveNow jid jobData threadId # xs).
            archiveInstant x \<le> now \<and> validCutoff (fst s) (archiveInstant x))
      \<and> validCutoff (fst s) now
      \<and> now < t + activeWindowDays (fst s) * msPerDay
      \<longrightarrow> hasBeenPosted (fst s') now jid jd)
   \<and> (\<not> (\<exists>j \<in> set (jobs (data m)). jobId j = jid) \<longrightarrow> \<not> hasBeenPosted m now jid jd)
   \<and> (0 \<le> activeWindowDays m \<and> activeWindowDays m \<le> 100000000
        \<and> 0 \<le> now \<and> now \<le> 8640000000000000 \<longrightarrow> validCutoff m now)"
proof (intro conjI impI)
  assume a: "run readBack s (MarkAsPosted t saveNow archiveNow jid jobData threadId # xs) = Some s'
      \<and> (\<forall>x \<in> set (MarkAsPosted t saveNow archiveNow jid jobData threadId # xs).
            archiveInstant x \<le> now \<and> validCutoff (fst s) (archiveInstant x))
      \<and> validCutoff (fst s) now
      \<and> now < t + activeWindowDays (fst s) * msPerDay"
  let ?x = "MarkAsPosted t saveNow archiveNow jid jobData threadId"
  obtain m0 dir0 where s: "s = (m0, dir0)" by (cases s)
  let ?j = "newJob m0 t jid jobData threadId"
  have j: "jobId ?j = jid" "postedToDiscord ?j = t"
    by (simp_all add: newJob_def Let_def)
  have fresh: "postedToDiscord ?j > now - activeWindowDays (fst s) * msPerDay"
    using a j by simp
  have "run readBack s (?x # xs) = Some s'" using a by simp
  then obtain s1 where s1: "step readBack s ?x = Some s1" "run readBack s1 xs = Some s'"
    by (auto split: option.splits)
  obtain m1 dir1 where s1': "s1 = (m1, dir1)" by (cases s1)
  have st: "step readBack (m0, dir0) ?x = Some (m1, dir1)" using s1(1) s s1' by simp
  have "archiveNow \<le> now" and v0: "validCutoff m0 archiveNow" using a s by simp_all
  then have "postedToDiscord ?j > archiveInstant ?x - activeWindowDays m0 * msPerDay"
    using fresh s by simp
  then have "isActive m0 (archiveInstant ?x) ?j"
    using v0 by (simp add: isActive_iff)
  then have in1: "?j \<in> set (jobs (data (fst s1)))"
    using step_Some(1) [OF st] s1' by simp
  have w: "activeWindowDays (fst s1) = activeWindowDays (fst s)"
    using step_Some(2) [OF st] s s1' by simp
  have v': "\<forall>x \<in> set xs. archiveInstant x \<le> now \<and> validCutoff (fst s1) (archiveInstant x)"
    using a w by (simp add: validCutoff_def)
  have fresh1: "postedToDiscord ?j > now - activeWindowDays (fst s1) * msPerDay"
    using fresh w by simp
  have k: "?j \<in> set (jobs (data (fst s'))) \<and> activeWindowDays (fst s') = activeWindowDays (fst s1)"
    using run_keeps_fresh [OF s1(2) in1 fresh1 v'] .
  have "validCutoff (fst s') now"
    using a k w by (simp add: validCutoff_def)
  then have "isActive (fst s') now ?j"
    using fresh k w by (simp add: isActive_iff)
  then show "hasBeenPosted (fst s') now jid jd"
    using hasBeenPosted_active [of ?j "fst s'" jid now jd] j k by simp
next
  assume "\<not> (\<exists>j \<in> set (jobs (data m)). jobId j = jid)"
  then show "\<not> hasBeenPosted m now jid jd" by (rule hasBeenPosted_unknown)
next
  assume b: "0 \<le> activeWindowDays m \<and> activeWindowDays m \<le> 100000000
        \<and> 0 \<le> now \<and> now \<le> 8640000000000000"
  then have "0 \<le> activeWindowDays m * msPerDay" "activeWindowDays m * msPerDay \<le> 8640000000000000"
    by (simp_all add: msPerDay_def)
  then show "validCutoff m now"
    using b unfolding validCutoff_def by linarith
qed

theorem hasBeenPosted_recency_witness:
  "\<exists>s'. run writtenDocument (freshManager, Map.empty)
           [MarkAsPosted 1700000000000 1700000000000 1700000000000 ''A'' (exampleJobData None) None,
            ArchiveOldJobs 1700259200000] = Some s'
      \<and> hasBeenPosted (fst s') 1700518400000 ''A'' None
      \<and> \<not> hasBeenPosted freshManager 1700518400000 ''A'' None
      \<and> validCutoff freshManager 1700518400000"
proof -
  let ?xs = "[ArchiveOldJobs 1700259200000]"
  let ?x = "MarkAsPosted 1700000000000 1700000000000 1700000000000 ''A'' (exampleJobData None) None"
  obtain s' where r: "run writtenDocument (freshManager, Map.empty) (?x # ?xs) = Some s'"
    using run_reliable by blast
  have h: "\<forall>x \<in> set (?x # ?xs). archiveInstant x \<le> 1700518400000
             \<and> validCutoff (fst (freshManager, Map.empty :: archive_dir)) (archiveInstant x)"
    by (simp add: validCutoff_def freshManager_simps msPerDay_def)
  have v: "validCutoff (fst (freshManager, Map.empty :: archive_dir)) 1700518400000"
    by (simp add: validCutoff_def freshManager_simps msPerDay_def)
  have w: "1700518400000 < 1700000000000 + activeWindowDays (fst (freshManager, Map.empty :: archive_dir)) * msPerDay"
    by (simp add: freshManager_simps msPerDay_def)
  have n: "\<not> (\<exists>j \<in> set (jobs (data freshManager)). jobId j = ''A'')"
    by (simp add: freshManager_simps)
  have b: "0 \<le> activeWindowDays freshManager \<and> activeWindowDays freshManager \<le> 100000000
        \<and> (0::int) \<le> 1700518400000 \<and> (1700518400000::int) \<le> 8640000000000000"
    by (simp add: freshManager_simps)
  show ?thesis
    using hasBeenPosted_recency [of writtenDocument "(freshManager, Map.empty)" 1700000000000
        1700000000000 1700000000000 "''A''" "exampleJobData None" None ?xs s' 1700518400000 None
        freshManager] r h v w n b
    by blast
qed

section \<open>Instance numbering\<close>

text \<open>
  Claim C1, at a failing input. \<^verbatim>\<open>markAsPosted\<close> counts the instances of the job in the
  active store only, and the archive pass removes aged instances from it: three appends of
  one job ten days apart, each followed by its own archive pass, are numbered 1, 2, 2,
  and with an archive run before the second and the third append they are numbered
  1, 1, 1.
\<close>

theorem instance_numbers_restart:
  "map (\<lambda>j. (instanceId j, instanceNumber j))
       (appended writtenDocument (freshManager, Map.empty) threeAppends)
     = [(''A-2023-11-14-1'', 1), (''A-2023-11-24-2'', 2), (''A-2023-12-04-2'', 2)]
   \<and> map (\<lambda>j. (instanceId j, instanceNumber j))
       (appended writtenDocument (freshManager, Map.empty) appendsAndArchives)
     = [(''A-2023-11-14-1'', 1), (''A-2023-11-24-1'', 1), (''A-2023-12-04-1'', 1)]"
  by code_simp

section \<open>Conservation of instances\<close>

lemma addToMonth_total:
  "sum_list (map (\<lambda>g. length (snd g)) (addToMonth k j acc))
     = Suc (sum_list (map (\<lambda>g. length (snd g)) acc))"
  by (induction k j acc rule: addToMonth.induct) auto

lemma groupInto_total:
  "sum_list (map (\<lambda>g. length (snd g)) (groupInto acc js))
     = sum_list (map (\<lambda>g. length (snd g)) acc) + length js"
  by (induction js arbitrary: acc) (auto simp: addToMonth_total)

lemma groupByMonth_total: "sum_list (map (\<lambda>g. length (snd g)) (groupByMonth js)) = length js"
  by (simp add: groupByMonth_def groupInto_total)

lemma loadArchive_after:
  "loadArchive (fst (snd (archiveOldJobs m now dir)) k)
     = (if filter (\<lambda>j. monthOf j = k) (agedJobs m now) = [] then loadArchive (dir k)
        else mergedArchive (loadArchive (dir k)) (filter (\<lambda>j. monthOf j = k) (agedJobs m now)))"
proof (cases "filter (\<lambda>j. monthOf j = k) (agedJobs m now) = []")
  case True
  then show ?thesis by (simp add: archiveOldJobs_closed bucketAfter_groupByMonth)
next
  case False
  then show ?thesis by (simp add: archiveOldJobs_closed bucketAfter_groupByMonth loadArchive_def)
qed

lemma set_loadArchive_after:
  "set (loadArchive (fst (snd (archiveOldJobs m now dir)) k))
     = set (loadArchive (dir k))
       \<union> {j \<in> set (agedJobs m now). monthOf j = k \<and> instanceId j \<notin> instanceId ` set (loadArchive (dir k))}"
proof (cases "filter (\<lambda>j. monthOf j = k) (agedJobs m now) = []")
  case True
  then have "{j \<in> set (agedJobs m now). monthOf j = k} = {}"
    by (auto simp: filter_empty_conv)
  then show ?thesis using True by (auto simp: loadArchive_after)
next
  case False
  then show ?thesis by (auto simp: loadArchive_after set_mergedArchive)
qed

lemma distinct_loadArchive_after:
  assumes "distinct (map instanceId (loadArchive (dir k)))"
      and "distinct (map instanceId (jobs (data m)))"
  shows "distinct (map instanceId (loadArchive (fst (snd (archiveOldJobs m now dir)) k)))"
proof -
  have "distinct (map instanceId (filter (\<lambda>j. monthOf j = k) (agedJobs m now)))"
    using assms(2) by (simp add: agedJobs_def distinct_map_filter)
  then show ?thesis
    using assms(1) by (simp add: loadArchive_after distinct_mergedArchive)
qed

lemma set_agedJobs:
  "set (agedJobs m now) \<subseteq> set (jobs (data m))"
  "set (jobs (data (fst (archiveOldJobs m now dir)))) \<union> set (agedJobs m now) = set (jobs (data m))"
  "set (jobs (data (fst (archiveOldJobs m now dir)))) \<inter> set (agedJobs m now) = {}"
  by (auto simp: agedJobs_def archiveOldJobs_jobs)

lemma archiveOldJobs_unique:
  assumes u: "uniqueIds (m, dir)"
  shows "allJobs (fst (archiveOldJobs m now dir), fst (snd (archiveOldJobs m now dir))) = allJobs (m, dir)"
    and "uniqueIds (fst (archiveOldJobs m now dir), fst (snd (archiveOldJobs m now dir)))"
    and "archived (fst (snd (snd (archiveOldJobs m now dir)))) = length (agedJobs m now)"
proof -
  let ?m' = "fst (archiveOldJobs m now dir)"
  let ?dir' = "fst (snd (archiveOldJobs m now dir))"
  let ?A = "jobs (data m)"
  let ?old = "agedJobs m now"
  have dA: "distinct (map instanceId ?A)"
    and dB: "\<And>k. distinct (map instanceId (loadArchive (dir k)))"
    and BB: "\<And>k k'. k \<noteq> k' \<Longrightarrow>
               instanceId ` set (loadArchive (dir k)) \<inter> instanceId ` set (loadArchive (dir k')) = {}"
    and AB: "instanceId ` set ?A \<inter> instanceId ` archivedJobs dir = {}"
    using u by (simp_all add: uniqueIds_def)
  have inj: "inj_on instanceId (set ?A)"
    using dA by (simp add: distinct_map)
  have arch: "\<And>k. set (loadArchive (dir k)) \<subseteq> archivedJobs dir"
    by (auto simp: archivedJobs_def)
  have notin: "\<And>j k. j \<in> set ?A \<Longrightarrow> instanceId j \<notin> instanceId ` set (loadArchive (dir k))"
    using AB arch by blast
  have setB: "\<And>k. set (loadArchive (?dir' k))
                 = set (loadArchive (dir k)) \<union> {j \<in> set ?old. monthOf j = k}"
    using notin set_agedJobs(1) [of m now] by (auto simp: set_loadArchive_after)
  have archived': "archivedJobs ?dir' = archivedJobs dir \<union> set ?old"
    unfolding archivedJobs_def setB by auto
  show all: "allJobs (?m', ?dir') = allJobs (m, dir)"
    using set_agedJobs(2) [of m now dir] by (auto simp: allJobs_def archived')
  show "uniqueIds (?m', ?dir')"
    unfolding uniqueIds_def fst_conv snd_conv
  proof (intro conjI allI impI)
    show "distinct (map instanceId (jobs (data ?m')))"
      using dA by (simp add: archiveOldJobs_jobs distinct_map_filter)
  next
    fix k
    show "distinct (map instanceId (loadArchive (?dir' k)))"
      by (rule distinct_loadArchive_after [OF dB dA])
  next
    fix k k' :: string
    assume ne: "k \<noteq> k'"
    show "instanceId ` set (loadArchive (?dir' k)) \<inter> instanceId ` set (loadArchive (?dir' k')) = {}"
    proof (rule ccontr)
      assume "instanceId ` set (loadArchive (?dir' k)) \<inter> instanceId ` set (loadArchive (?dir' k')) \<noteq> {}"
      then obtain x y where x: "x \<in> set (loadArchive (?dir' k))"
        and y: "y \<in> set (loadArchive (?dir' k'))" and e: "instanceId x = instanceId y"
        by auto
      from x have x': "x \<in> set (loadArchive (dir k)) \<or> (x \<in> set ?old \<and> monthOf x = k)"
        by (simp add: setB)
      from y have y': "y \<in> set (loadArchive (dir k')) \<or> (y \<in> set ?old \<and> monthOf y = k')"
        by (simp add: setB)
      from x' y' show False
      proof (elim disjE conjE)
        assume "x \<in> set (loadArchive (dir k))" "y \<in> set (loadArchive (dir k'))"
        then show False using BB [OF ne] e by auto
      next
        assume "x \<in> set (loadArchive (dir k))" "y \<in> set ?old" "monthOf y = k'"
        then show False using notin [of y k] set_agedJobs(1) [of m now] e by (metis imageI subsetD)
      next
        assume "x \<in> set ?old" "monthOf x = k" "y \<in> set (loadArchive (dir k'))"
        then show False using notin [of x k'] set_agedJobs(1) [of m now] e by (metis imageI subsetD)
      next
        assume a: "x \<in> set ?old" "monthOf x = k" "y \<in> set ?old" "monthOf y = k'"
        then have "x = y" using inj e set_agedJobs(1) [of m now] by (meson inj_onD subsetD)
        then show False using a ne by simp
      qed
    qed
  next
    show "instanceId ` set (jobs (data ?m')) \<inter> instanceId ` archivedJobs ?dir' = {}"
    proof (rule ccontr)
      assume "instanceId ` set (jobs (data ?m')) \<inter> instanceId ` archivedJobs ?dir' \<noteq> {}"
      then obtain x y where x: "x \<in> set (jobs (data ?m'))" and y: "y \<in> archivedJobs ?dir'"
        and e: "instanceId x = instanceId y"
        by auto
      have xA: "x \<in> set ?A" using x set_agedJobs(2) [of m now dir] by blast
      from y have "y \<in> archivedJobs dir \<or> y \<in> set ?old" by (simp add: archived')
      then show False
      proof
        assume "y \<in> archivedJobs dir"
        then show False using AB xA e by (metis IntI emptyE imageI)
      next
        assume yo: "y \<in> set ?old"
        then have "x = y" using inj e xA set_agedJobs(1) [of m now] by (meson inj_onD subsetD)
        then show False using x yo set_agedJobs(3) [of m now dir] by blast
      qed
    qed
  qed
  show "archived (fst (snd (snd (archiveOldJobs m now dir)))) = length ?old"
  proof -
    have "\<And>g. g \<in> set (groupByMonth ?old) \<Longrightarrow> bucketInserted dir g = length (snd g)"
    proof -
      fix g assume g: "g \<in> set (groupByMonth ?old)"
      then have "set (snd g) \<subseteq> set ?old"
        using groupByMonth_mem [of "fst g" "snd g" ?old] by auto
      then have "\<forall>j \<in> set (snd g). instanceId j \<notin> instanceId ` set (loadArchive (dir (fst g)))"
        using notin set_agedJobs(1) [of m now] by blast
      then have "newJobs (loadArchive (dir (fst g))) (snd g) = snd g"
        by (simp add: newJobs_def filter_id_conv)
      then show "bucketInserted dir g = length (snd g)"
        by (simp add: bucketInserted_def)
    qed
    then have eq: "map (bucketInserted dir) (groupByMonth ?old)
                 = map (\<lambda>g. length (snd g)) (groupByMonth ?old)"
      by (rule map_cong [OF refl])
    show ?thesis
      by (simp only: archiveOldJobs_closed eq groupByMonth_total)
  qed
qed

lemma threeAppends_created:
  "map instanceId (appended writtenDocument (freshManager, Map.empty) threeAppends)
     = [''A-2023-11-14-1'', ''A-2023-11-24-2'', ''A-2023-12-04-2'']"
  by code_simp

text \<open>
  What a run conserves. Over any run of appends and archive operations that does not end
  the process, the set of instance ids held by the active store and the buckets is the set
  held before the run together with the ids of the instances the appends created; on a
  reliable disk no run ends the process. A bucket file that is corrupt holds no instance.
  One archive operation keeps every instance, keeps every id unique and reports as
  archived the number of aged jobs when every id occurs once in the system, which
  \<^verbatim>\<open>markAsPosted\<close> does not ensure.
\<close>

lemma ids_conserved:
  "(run readBack s xs = Some s' \<longrightarrow>
       instanceId ` allJobs s' = instanceId ` allJobs s \<union> instanceId ` set (appended readBack s xs))
   \<and> (\<exists>s''. run writtenDocument s xs = Some s'')
   \<and> (uniqueIds (m, dir) \<longrightarrow>
        allJobs (fst (archiveOldJobs m now dir), fst (snd (archiveOldJobs m now dir))) = allJobs (m, dir)
        \<and> uniqueIds (fst (archiveOldJobs m now dir), fst (snd (archiveOldJobs m now dir)))
        \<and> archived (fst (snd (snd (archiveOldJobs m now dir)))) = length (agedJobs m now))"
  using run_ids [of readBack s xs s'] run_reliable [of s xs] archiveOldJobs_unique [of m dir now]
  by blast

lemma ids_conserved_example:
  "(\<exists>s'. run writtenDocument (freshManager, Map.empty) threeAppends = Some s'
        \<and> instanceId ` allJobs s' = {''A-2023-11-14-1'', ''A-2023-11-24-2'', ''A-2023-12-04-2''})
   \<and> uniqueIds (exampleManager, Map.empty)
   \<and> allJobs (fst (archiveOldJobs exampleManager 1700864000000 Map.empty),
               fst (snd (archiveOldJobs exampleManager 1700864000000 Map.empty))) = {exampleJob}
   \<and> archived (fst (snd (snd (archiveOldJobs exampleManager 1700864000000 Map.empty)))) = 1"
proof -
  note c = ids_conserved [of writtenDocument "(freshManager, Map.empty)" threeAppends _
      exampleManager Map.empty 1700864000000]
  obtain s' where r: "run writtenDocument (freshManager, Map.empty) threeAppends = Some s'"
    using c by blast
  have "instanceId ` allJobs s' = instanceId ` allJobs (freshManager, Map.empty)
          \<union> instanceId ` set (appended writtenDocument (freshManager, Map.empty) threeAppends)"
    using c r by blast
  also have "\<dots> = set (map instanceId (appended writtenDocument (freshManager, Map.empty) threeAppends))"
    by (simp add: allJobs_def freshManager_simps archivedJobs_empty)
  also have "\<dots> = {''A-2023-11-14-1'', ''A-2023-11-24-2'', ''A-2023-12-04-2''}"
    unfolding threeAppends_created by simp
  finally have a: "instanceId ` allJobs s' = {''A-2023-11-14-1'', ''A-2023-11-24-2'', ''A-2023-12-04-2''}" .
  have u: "uniqueIds (exampleManager, Map.empty)"
    by (simp add: uniqueIds_def exampleManager_def loadArchive_def archivedJobs_empty)
  have e: "allJobs (exampleManager, Map.empty) = {exampleJob}"
    by (simp add: allJobs_def exampleManager_def archivedJobs_empty)
  have l: "length (agedJobs exampleManager 1700864000000) = 1"
    by (simp add: agedJobs_def isActive_iff validCutoff_def exampleManager_def exampleJob_def
        msPerDay_def)
  show ?thesis using c r a u e l by force
qed

lemma duplicateIdRun_appended:
  "map (\<lambda>j. (instanceId j, postedToDiscord j, monthOf j))
       (appended writtenDocument (freshManager, Map.empty) duplicateIdRun)
     = [(''A-2023-11-14-1'', 1700000000000, ''2023-11''), (''A-2023-11-21-2'', 1700604799000, ''2023-11''),
        (''B-2023-11-21-1'', 1700604800000, ''2023-11''), (''A-2023-11-21-2'', 1700604801000, ''2023-11''),
        (''C-2023-11-28-1'', 1701209600000, ''2023-11''), (''D-2023-11-28-1'', 1701209602000, ''2023-11'')]"
  by code_simp

lemma duplicateIdRun_final:
  "case run writtenDocument (freshManager, Map.empty) duplicateIdRun of
     Some s' \<Rightarrow>
       map (\<lambda>j. (instanceId j, postedToDiscord j)) (jobs (data (fst s')))
         = [(''C-2023-11-28-1'', 1701209600000), (''D-2023-11-28-1'', 1701209602000)]
       \<and> map (\<lambda>j. (instanceId j, postedToDiscord j)) (loadArchive (snd s' ''2023-11''))
         = [(''A-2023-11-14-1'', 1700000000000), (''A-2023-11-21-2'', 1700604799000),
            (''B-2023-11-21-1'', 1700604800000)]
   | None \<Rightarrow> False"
  by code_simp

text \<open>
  Claim C2, at a failing input. \<^verbatim>\<open>markAsPosted\<close> numbers an instance by the instances
  of the job in the active store, so two instances of a job get the same id when they are
  posted on the same day and an older instance was archived between them; the merge of
  \<^verbatim>\<open>archiveOldJobs\<close> then skips the second of them, because the bucket holds its id, and
  the archive pass removes it from the active store all the same. With the default
  windows, of the six instances the appends of the run create, the fourth (the second
  with id \<^verbatim>\<open>A-2023-11-21-2\<close>, posted at 1700604801000) is neither in the active store
  nor in any bucket after the run: five instances are left.
\<close>

theorem archive_drops_instance:
  "map (\<lambda>j. (instanceId j, postedToDiscord j))
       (appended writtenDocument (freshManager, Map.empty) duplicateIdRun)
     = [(''A-2023-11-14-1'', 1700000000000), (''A-2023-11-21-2'', 1700604799000),
        (''B-2023-11-21-1'', 1700604800000), (''A-2023-11-21-2'', 1700604801000),
        (''C-2023-11-28-1'', 1701209600000), (''D-2023-11-28-1'', 1701209602000)]
   \<and> (\<exists>s'. run writtenDocument (freshManager, Map.empty) duplicateIdRun = Some s'
         \<and> (\<lambda>j. (instanceId j, postedToDiscord j)) ` allJobs s'
             = {(''A-2023-11-14-1'', 1700000000000), (''A-2023-11-21-2'', 1700604799000),
                (''B-2023-11-21-1'', 1700604800000), (''C-2023-11-28-1'', 1701209600000),
                (''D-2023-11-28-1'', 1701209602000)}
         \<and> 1700604801000 \<notin> postedToDiscord ` allJobs s')"
proof -
  let ?p = "\<lambda>j. (instanceId j, postedToDiscord j)"
  let ?s = "(freshManager, Map.empty :: archive_dir)"
  have ap: "map (\<lambda>j. (instanceId j, postedToDiscord j, monthOf j)) (appended writtenDocument ?s duplicateIdRun)
     = [(''A-2023-11-14-1'', 1700000000000, ''2023-11''), (''A-2023-11-21-2'', 1700604799000, ''2023-11''),
        (''B-2023-11-21-1'', 1700604800000, ''2023-11''), (''A-2023-11-21-2'', 1700604801000, ''2023-11''),
        (''C-2023-11-28-1'', 1701209600000, ''2023-11''), (''D-2023-11-28-1'', 1701209602000, ''2023-11'')]"
    by (rule duplicateIdRun_appended)
  have "map ?p (appended writtenDocument ?s duplicateIdRun)
          = map (\<lambda>t. (fst t, fst (snd t)))
              (map (\<lambda>j. (instanceId j, postedToDiscord j, monthOf j)) (appended writtenDocument ?s duplicateIdRun))"
    by (simp add: comp_def)
  then have first: "map ?p (appended writtenDocument ?s duplicateIdRun)
     = [(''A-2023-11-14-1'', 1700000000000), (''A-2023-11-21-2'', 1700604799000),
        (''B-2023-11-21-1'', 1700604800000), (''A-2023-11-21-2'', 1700604801000),
        (''C-2023-11-28-1'', 1701209600000), (''D-2023-11-28-1'', 1701209602000)]"
    unfolding ap by simp
  have "map monthOf (appended writtenDocument ?s duplicateIdRun)
          = map (\<lambda>t. snd (snd t))
              (map (\<lambda>j. (instanceId j, postedToDiscord j, monthOf j)) (appended writtenDocument ?s duplicateIdRun))"
    by (simp add: comp_def)
  then have "map monthOf (appended writtenDocument ?s duplicateIdRun) = replicate 6 ''2023-11''"
    unfolding ap by (simp add: numeral_eq_Suc)
  then have "set (map monthOf (appended writtenDocument ?s duplicateIdRun)) = {''2023-11''}"
    by simp
  then have months: "\<And>j. j \<in> set (appended writtenDocument ?s duplicateIdRun) \<Longrightarrow> monthOf j = ''2023-11''"
    by auto
  obtain s' where r: "run writtenDocument ?s duplicateIdRun = Some s'"
    using run_reliable by blast
  have act: "map ?p (jobs (data (fst s')))
         = [(''C-2023-11-28-1'', 1701209600000), (''D-2023-11-28-1'', 1701209602000)]"
    and nov: "map ?p (loadArchive (snd s' ''2023-11''))
         = [(''A-2023-11-14-1'', 1700000000000), (''A-2023-11-21-2'', 1700604799000),
            (''B-2023-11-21-1'', 1700604800000)]"
    using duplicateIdRun_final r by simp_all
  have other: "\<And>k. k \<noteq> ''2023-11'' \<Longrightarrow> loadArchive (snd s' k) = []"
  proof -
    fix k :: string assume k: "k \<noteq> ''2023-11''"
    have "\<forall>j \<in> set (jobs (data (fst ?s)) @ appended writtenDocument ?s duplicateIdRun). monthOf j \<noteq> k"
      using months k by (auto simp: freshManager_simps)
    from run_bucket [OF r this] show "loadArchive (snd s' k) = []"
      by (simp add: loadArchive_def)
  qed
  have "archivedJobs (snd s') = set (loadArchive (snd s' ''2023-11''))"
  proof
    show "archivedJobs (snd s') \<subseteq> set (loadArchive (snd s' ''2023-11''))"
    proof
      fix j assume "j \<in> archivedJobs (snd s')"
      then obtain k where "j \<in> set (loadArchive (snd s' k))" by (auto simp: archivedJobs_def)
      then show "j \<in> set (loadArchive (snd s' ''2023-11''))"
        using other [of k] by (cases "k = ''2023-11''") auto
    qed
    show "set (loadArchive (snd s' ''2023-11'')) \<subseteq> archivedJobs (snd s')"
      by (auto simp: archivedJobs_def)
  qed
  then have "?p ` allJobs s' = set (map ?p (jobs (data (fst s')))) \<union> set (map ?p (loadArchive (snd s' ''2023-11'')))"
    by (simp add: allJobs_def image_Un)
  then have all: "?p ` allJobs s'
             = {(''A-2023-11-14-1'', 1700000000000), (''A-2023-11-21-2'', 1700604799000),
                (''B-2023-11-21-1'', 1700604800000), (''C-2023-11-28-1'', 1701209600000),
                (''D-2023-11-28-1'', 1701209602000)}"
    unfolding act nov by auto
  have "postedToDiscord ` allJobs s' = snd ` ?p ` allJobs s'"
    by (simp add: image_image)
  then have "1700604801000 \<notin> postedToDiscord ` allJobs s'"
    unfolding all by simp
  then show ?thesis using first r all by blast
qed

section \<open>Write verification\<close>










end
